theory Spec2Isabelle
  imports Complex_Main "HOL-Library.AList"
begin

section \<open>Python values and errors\<close>

text \<open>
  Attribute values of nodes and edges, coordinates and the entries of the trace sequences
  are Python objects. The model covers \<open>None\<close>, integers, floats, strings, lists and
  tuples. Floats are idealised as exact rationals: rounding and overflow of the binary
  floating-point format are not modelled. The position arrays that the layout functions
  of the graph library return are represented as two-element tuples of floats, which is
  how the code uses them (it unpacks and indexes them).
\<close>

datatype val =
    VNone
  | VInt int
  | VFloat rat
  | VStr string
  | VList "val list"
  | VTuple "val list"

text \<open>
  Exceptions are values. \<open>KeyError k\<close> is the missing-key error of a dictionary lookup
  with key \<open>k\<close>; \<open>TypeError\<close>, \<open>ValueError\<close> and \<open>IndexError\<close> come from unpacking,
  indexing and arithmetic on values of the wrong shape, \<open>ValueError\<close> also from the chart
  library when it rejects a value; \<open>OverflowError\<close> comes from the conversion of an
  integer that is too large for a float; \<open>LibraryError\<close> is anything a layout function of
  the graph library raises (the planar layout on a non-planar graph).
\<close>

datatype error =
    KeyError string
  | TypeError
  | ValueError
  | IndexError
  | OverflowError
  | LibraryError string

definition ebind :: "error + 'a \<Rightarrow> ('a \<Rightarrow> error + 'b) \<Rightarrow> error + 'b" where
  "ebind m f = (case m of Inl e \<Rightarrow> Inl e | Inr a \<Rightarrow> f a)"

text \<open>A \<open>for\<close> loop over a list whose body may raise: the first error ends the loop.\<close>

fun efold :: "('a \<Rightarrow> 's \<Rightarrow> error + 's) \<Rightarrow> 'a list \<Rightarrow> 's \<Rightarrow> error + 's" where
  "efold f [] s = Inr s"
| "efold f (a # as) s = (case f a s of Inl e \<Rightarrow> Inl e | Inr s' \<Rightarrow> efold f as s')"

text \<open>The items of a value when it is iterated: lists, tuples and strings are iterable.\<close>

fun seq_items :: "val \<Rightarrow> val list option" where
  "seq_items (VList l) = Some l"
| "seq_items (VTuple l) = Some l"
| "seq_items (VStr s) = Some (map (\<lambda>c. VStr [c]) s)"
| "seq_items _ = None"

text \<open>\<^verbatim>\<open>a, b = v\<close>: a non-iterable raises TypeError, a wrong length ValueError.\<close>

definition unpack2 :: "val \<Rightarrow> error + val \<times> val" where
  "unpack2 v =
     (case seq_items v of
        None \<Rightarrow> Inl TypeError
      | Some l \<Rightarrow> (case l of [a, b] \<Rightarrow> Inr (a, b) | _ \<Rightarrow> Inl ValueError))"

text \<open>\<^verbatim>\<open>v[i]\<close> for the indices 0 and 1 that the code uses.\<close>

definition subscript :: "val \<Rightarrow> nat \<Rightarrow> error + val" where
  "subscript v i =
     (case seq_items v of
        None \<Rightarrow> Inl TypeError
      | Some l \<Rightarrow> if i < length l then Inr (l ! i) else Inl IndexError)"

fun num_of :: "val \<Rightarrow> rat option" where
  "num_of (VInt i) = Some (of_int i)"
| "num_of (VFloat r) = Some r"
| "num_of _ = None"

text \<open>
  \<^verbatim>\<open>(a + b) / 2\<close>. Two integers are added exactly and the true division gives a
  float, or raises OverflowError when the quotient is too large for one; an integer that
  meets a float is converted to a float first, which raises OverflowError when it is too
  large. Floats never raise. An integer or quotient is too large when its magnitude
  reaches \<open>float_limit\<close>, the least magnitude that rounds beyond the largest float. Every
  other combination of the modelled values raises TypeError, at the addition or (strings,
  lists and tuples, which concatenate) at the division.
\<close>

definition float_limit :: rat where
  "float_limit = 2 ^ 1024 - 2 ^ 970"

definition to_float :: "rat \<Rightarrow> error + rat" where
  "to_float q = (if float_limit \<le> \<bar>q\<bar> then Inl OverflowError else Inr q)"

fun midpoint :: "val \<Rightarrow> val \<Rightarrow> error + val" where
  "midpoint (VInt i) (VInt j) =
     (case to_float (of_int (i + j) / 2) of Inl e \<Rightarrow> Inl e | Inr q \<Rightarrow> Inr (VFloat q))"
| "midpoint (VInt i) (VFloat q) =
     (case to_float (of_int i) of Inl e \<Rightarrow> Inl e | Inr p \<Rightarrow> Inr (VFloat ((p + q) / 2)))"
| "midpoint (VFloat p) (VInt j) =
     (case to_float (of_int j) of Inl e \<Rightarrow> Inl e | Inr q \<Rightarrow> Inr (VFloat ((p + q) / 2)))"
| "midpoint (VFloat p) (VFloat q) = Inr (VFloat ((p + q) / 2))"
| "midpoint _ _ = Inl TypeError"

text \<open>\<^verbatim>\<open>sep.join(parts)\<close>\<close>

fun join :: "string \<Rightarrow> string list \<Rightarrow> string" where
  "join sep [] = []"
| "join sep [s] = s"
| "join sep (s # t # r) = s @ sep @ join sep (t # r)"

section \<open>The graph\<close>

text \<open>
  The graph is the caller's object of the graph library. The model holds what the code
  reads from it: whether its class is a directed one, the nodes in iteration order
  (\<^verbatim>\<open>G.nodes()\<close>), the attribute dictionary of each node (\<^verbatim>\<open>G.nodes[n]\<close>), the
  edges with their attribute dictionaries in iteration order (\<^verbatim>\<open>G.edges(data=True)\<close>;
  \<^verbatim>\<open>G.edges()\<close> lists the same edges without the dictionaries), and the degree
  the library reports for each node (\<^verbatim>\<open>G.degree(n)\<close>). Attribute names are strings.
  The code only looks node attributes up by name, so a node's dictionary is a map; it
  iterates over an edge's dictionary, so that one is an association list in item order.
\<close>

type_synonym attrs = "string \<rightharpoonup> val"
type_synonym eattrs = "(string \<times> val) list"

record 'n graph =
  directed :: bool
  nodes :: "'n list"
  node_attrs :: "'n \<Rightarrow> attrs"
  edges :: "('n \<times> 'n \<times> eattrs) list"
  degree :: "'n \<Rightarrow> int"

text \<open>\<^verbatim>\<open>G.nodes[n][k]\<close>\<close>

definition attr_lookup :: "'n graph \<Rightarrow> 'n \<Rightarrow> string \<Rightarrow> error + val" where
  "attr_lookup G n k = (case node_attrs G n k of None \<Rightarrow> Inl (KeyError k) | Some v \<Rightarrow> Inr v)"

text \<open>
  \<^verbatim>\<open>nx.get_node_attributes(G, name)\<close>: the dictionary of the nodes that have the
  attribute, with its value.
\<close>

definition get_node_attributes :: "'n graph \<Rightarrow> string \<Rightarrow> ('n \<times> val) list" where
  "get_node_attributes G name =
     List.map_filter (\<lambda>n. map_option (Pair n) (node_attrs G n name)) (nodes G)"

text \<open>
  \<^verbatim>\<open>nx.set_node_attributes(G, values, name)\<close> with a dictionary of values: the
  attribute is written on every node of the graph that is a key of the dictionary.
\<close>

definition set_node_attributes :: "'n graph \<Rightarrow> ('n \<rightharpoonup> val) \<Rightarrow> string \<Rightarrow> 'n graph" where
  "set_node_attributes G vals name =
     G\<lparr>node_attrs := (\<lambda>n. if n \<in> set (nodes G)
                           then (case vals n of
                                   None \<Rightarrow> node_attrs G n
                                 | Some v \<Rightarrow> (node_attrs G n)(name \<mapsto> v))
                           else node_attrs G n)\<rparr>"

section \<open>The environment: library functions the code calls\<close>

text \<open>
  The seven layout functions of the graph library, Python's conversion of a value to
  text inside an f-string, its \<^verbatim>\<open>str.strip\<close>, and the chart library are not part of
  the repository; they are parameters of the model. A layout function maps the graph to a
  dictionary of two-dimensional positions, or raises. \<open>node_str\<close> is the text of a node
  identifier, \<open>fmt\<close> the text of a value, \<open>strip\<close> the string without its leading and
  trailing whitespace.

  The chart library validates what it is given and raises ValueError when it rejects it:
  \<open>valid_traces\<close> says whether it accepts the construction of the three traces with the
  given colour scale and colour-bar title, \<open>valid_size\<close> and \<open>valid_color\<close> whether it
  accepts a sequence assigned to the marker sizes and to the marker colours, and
  \<open>valid_layout\<close> whether it accepts the construction of the figure with the given title,
  title font size, legend flag and annotations. The coordinate and text sequences of a
  trace accept every sequence the code assigns.

  One call of a layout function is a function of the graph. That a layout which draws
  random numbers may return other positions at the next call is not modelled, and
  nothing below compares the results of two calls of a layout function.
\<close>

type_synonym 'n layout_fn = "'n graph \<Rightarrow> error + ('n \<rightharpoonup> rat \<times> rat)"

datatype annotation =
    Caption string
  | Arrow (ax: val) (ay: val) (arrow_x: val) (arrow_y: val)

record 'n env =
  node_str :: "'n \<Rightarrow> string"
  fmt :: "val \<Rightarrow> string"
  strip :: "string \<Rightarrow> string"
  valid_traces :: "string \<Rightarrow> string \<Rightarrow> bool"
  valid_size :: "val list \<Rightarrow> bool"
  valid_color :: "val list \<Rightarrow> bool"
  valid_layout :: "string \<Rightarrow> int \<Rightarrow> bool \<Rightarrow> annotation list \<Rightarrow> bool"
  random_layout :: "'n layout_fn"
  circular_layout :: "'n layout_fn"
  kamada_kawai_layout :: "'n layout_fn"
  planar_layout :: "'n layout_fn"
  spring_layout :: "'n layout_fn"
  spectral_layout :: "'n layout_fn"
  spiral_layout :: "'n layout_fn"

definition pos_val :: "rat \<times> rat \<Rightarrow> val" where
  "pos_val p = VTuple [VFloat (fst p), VFloat (snd p)]"

section \<open>Layout application\<close>

definition layout_functions :: "'n env \<Rightarrow> (string \<times> 'n layout_fn) list" where
  "layout_functions env =
     [(''random'', random_layout env),
      (''circular'', circular_layout env),
      (''kamada'', kamada_kawai_layout env),
      (''planar'', planar_layout env),
      (''spring'', spring_layout env),
      (''spectral'', spectral_layout env),
      (''spiral'', spiral_layout env)]"

definition apply_layout :: "'n env \<Rightarrow> 'n graph \<Rightarrow> string \<Rightarrow> error + 'n graph" where
  "apply_layout env G layout =
     (case map_of (layout_functions env) layout of
        None \<Rightarrow> Inl (KeyError layout)
      | Some f \<Rightarrow>
          ebind (f G) (\<lambda>pos_dict.
            Inr (set_node_attributes G (map_option pos_val \<circ> pos_dict) ''pos'')))"

text \<open>
  The layout step at the head of \<^verbatim>\<open>plot\<close>. The layout argument is \<open>None\<close> or a
  string; \<^verbatim>\<open>if layout:\<close> holds for a non-empty string.
\<close>

definition truthy :: "string option \<Rightarrow> bool" where
  "truthy layout = (case layout of None \<Rightarrow> False | Some s \<Rightarrow> s \<noteq> [])"

definition layout_step :: "'n env \<Rightarrow> 'n graph \<Rightarrow> string option \<Rightarrow> error + 'n graph" where
  "layout_step env G layout =
     (if truthy layout then apply_layout env G (the layout)
      else if get_node_attributes G ''pos'' = [] then apply_layout env G ''random''
      else Inr G)"

section \<open>Trace builder\<close>

text \<open>
  A scatter trace of the chart library: its parallel sequences. The node trace uses all
  five, the edge-hover trace \<open>x\<close>, \<open>y\<close> and \<open>text\<close>, the edge trace \<open>x\<close> and \<open>y\<close>.
  The constant styling of the traces, the colour scale and the colour-bar title are
  handed to the chart library as they are and are not fields of the record.
\<close>

record scatter =
  tr_x :: "val list"
  tr_y :: "val list"
  tr_text :: "string list"
  marker_size :: "val list"
  marker_color :: "val list"

definition empty_scatter :: scatter where
  "empty_scatter = \<lparr>tr_x = [], tr_y = [], tr_text = [], marker_size = [], marker_color = []\<rparr>"

text \<open>\<^verbatim>\<open>size_method\<close> and \<^verbatim>\<open>color_method\<close> are a string or a list.\<close>

datatype method_arg = MStr string | MList "val list"

text \<open>
  \<^verbatim>\<open>edge_properties\<close>: a dictionary from the pair \<^verbatim>\<open>(edge[0], edge[1])\<close> to a
  dictionary from attribute name to the list of its values. Both keep insertion order
  (the hover texts are read off in that order), so they are association lists;
  \<open>AList.update\<close> replaces the value of a key that is present in place and appends a new
  key at the end, as assignment to a dictionary entry does.
\<close>

type_synonym props = "(string \<times> val list) list"

record 'n estate =
  st_edge_trace :: scatter
  st_middle_node_trace :: scatter
  st_edge_properties :: "(('n \<times> 'n) \<times> props) list"

text \<open>
  The body of the loop over \<^verbatim>\<open>edge[2].items()\<close>. After the first statement the key
  is present, so the \<open>None\<close> branch of the second lookup is never taken.
\<close>

definition add_property :: "props \<Rightarrow> string \<times> val \<Rightarrow> props" where
  "add_property ps kv =
     (let k = fst kv; v = snd kv;
          ps1 = (if map_of ps k = None then AList.update k [] ps else ps)
      in case map_of ps1 k of
           None \<Rightarrow> ps1
         | Some l \<Rightarrow> AList.update k (l @ [v]) ps1)"

text \<open>The \<^verbatim>\<open>if show_edgetext:\<close> block of the edge loop.\<close>

definition hover_step ::
  "'n \<times> 'n \<Rightarrow> val \<Rightarrow> val \<Rightarrow> val \<Rightarrow> val \<Rightarrow> eattrs \<Rightarrow> 'n estate \<Rightarrow> error + 'n estate" where
  "hover_step edge_pair x0 y0 x1 y1 d st =
     ebind
       (if map_of (st_edge_properties st) edge_pair = None then
          ebind (midpoint x0 x1) (\<lambda>mx.
          ebind (midpoint y0 y1) (\<lambda>my.
            Inr (st\<lparr>st_edge_properties := AList.update edge_pair [] (st_edge_properties st),
                     st_middle_node_trace :=
                       (st_middle_node_trace st)
                         \<lparr>tr_x := tr_x (st_middle_node_trace st) @ [mx],
                          tr_y := tr_y (st_middle_node_trace st) @ [my]\<rparr>\<rparr>)))
        else Inr st)
       (\<lambda>st1.
          case map_of (st_edge_properties st1) edge_pair of
            None \<Rightarrow> Inr st1
          | Some ps \<Rightarrow>
              Inr (st1\<lparr>st_edge_properties :=
                          AList.update edge_pair (foldl add_property ps d) (st_edge_properties st1)\<rparr>))"

text \<open>The body of \<^verbatim>\<open>for edge in G.edges(data=True)\<close>.\<close>

definition edge_step :: "'n graph \<Rightarrow> bool \<Rightarrow> 'n \<times> 'n \<times> eattrs \<Rightarrow> 'n estate \<Rightarrow> error + 'n estate" where
  "edge_step G show_edgetext edge st =
     (let u = fst edge; v = fst (snd edge); d = snd (snd edge) in
      ebind (attr_lookup G u ''pos'') (\<lambda>p0.
      ebind (unpack2 p0) (\<lambda>xy0.
      ebind (attr_lookup G v ''pos'') (\<lambda>p1.
      ebind (unpack2 p1) (\<lambda>xy1.
        let x0 = fst xy0; y0 = snd xy0; x1 = fst xy1; y1 = snd xy1;
            st1 = st\<lparr>st_edge_trace :=
                        (st_edge_trace st)\<lparr>tr_x := tr_x (st_edge_trace st) @ [x0, x1, VNone],
                                         tr_y := tr_y (st_edge_trace st) @ [y0, y1, VNone]\<rparr>\<rparr>
        in if show_edgetext then hover_step (u, v) x0 y0 x1 y1 d st1 else Inr st1)))))"

text \<open>The loop over \<^verbatim>\<open>node_text\<close> that extends the hover text of a node.\<close>

definition text_step :: "'n env \<Rightarrow> 'n graph \<Rightarrow> 'n \<Rightarrow> string \<Rightarrow> string \<Rightarrow> error + string" where
  "text_step env G node prop text =
     ebind (attr_lookup G node prop) (\<lambda>v.
       Inr (text @ ''<br></br>'' @ prop @ '': '' @ fmt env v))"

text \<open>
  Assignment to the marker sizes and to the marker colours of the node trace: the chart
  library validates the assigned sequence.
\<close>

definition assign_size :: "'n env \<Rightarrow> val list \<Rightarrow> error + val list" where
  "assign_size env v = (if valid_size env v then Inr v else Inl ValueError)"

definition assign_color :: "'n env \<Rightarrow> val list \<Rightarrow> error + val list" where
  "assign_color env v = (if valid_color env v then Inr v else Inl ValueError)"

text \<open>
  The size and the colour blocks of the node loop. In the colour block the attribute is
  looked up only after the membership test, so the \<open>None\<close> branch of that lookup is never
  taken.
\<close>

definition size_step :: "'n env \<Rightarrow> 'n graph \<Rightarrow> method_arg \<Rightarrow> 'n \<Rightarrow> val list \<Rightarrow> error + val list" where
  "size_step env G size_method node sizes =
     (case size_method of
        MList l \<Rightarrow> assign_size env l
      | MStr s \<Rightarrow>
          if s = ''degree'' then assign_size env (sizes @ [VInt (degree G node + 12)])
          else if s = ''static'' then assign_size env (sizes @ [VInt 12])
          else ebind (attr_lookup G node s) (\<lambda>v. assign_size env (sizes @ [v])))"

definition color_step :: "'n env \<Rightarrow> 'n graph \<Rightarrow> method_arg \<Rightarrow> 'n \<Rightarrow> val list \<Rightarrow> error + val list" where
  "color_step env G color_method node colors =
     (case color_method of
        MList l \<Rightarrow> assign_color env l
      | MStr s \<Rightarrow>
          if s = ''degree'' then assign_color env (colors @ [VInt (degree G node)])
          else if s \<in> dom (node_attrs G node)
               then (case node_attrs G node s of
                       None \<Rightarrow> Inr colors
                     | Some v \<Rightarrow> assign_color env (colors @ [v]))
               else assign_color env (colors @ [VStr s]))"

text \<open>The body of \<^verbatim>\<open>for node in G.nodes()\<close>.\<close>

definition node_step ::
  "'n env \<Rightarrow> 'n graph \<Rightarrow> method_arg \<Rightarrow> method_arg \<Rightarrow> string list \<Rightarrow> 'n \<Rightarrow> scatter \<Rightarrow> error + scatter" where
  "node_step env G size_method color_method node_text node nt =
     (let text = ''Node: '' @ node_str env node @ ''<br>Degree: '' @ fmt env (VInt (degree G node)) in
      ebind (attr_lookup G node ''pos'') (\<lambda>p.
      ebind (unpack2 p) (\<lambda>xy.
      ebind (if node_text \<noteq> [] then efold (text_step env G node) node_text text else Inr text) (\<lambda>text1.
      ebind (size_step env G size_method node (marker_size nt)) (\<lambda>sizes.
      ebind (color_step env G color_method node (marker_color nt)) (\<lambda>colors.
        Inr (nt\<lparr>tr_x := tr_x nt @ [fst xy],
                 tr_y := tr_y nt @ [snd xy],
                 tr_text := tr_text nt @ [strip env text1],
                 marker_size := sizes,
                 marker_color := colors\<rparr>)))))))"

text \<open>The hover text of one pair: a line per attribute name, with the list of its values.\<close>

definition edge_text :: "'n env \<Rightarrow> props \<Rightarrow> string" where
  "edge_text env ps = join [CHR 0x0A] (map (\<lambda>kv. fst kv @ '': '' @ fmt env (VList (snd kv))) ps)"

text \<open>
  The three traces are constructed first, with the colour scale and the colour-bar title;
  then come the two loops and the hover texts.
\<close>

definition generate_scatter_trace ::
  "'n env \<Rightarrow> 'n graph \<Rightarrow> method_arg \<Rightarrow> method_arg \<Rightarrow> string \<Rightarrow> string \<Rightarrow> string list \<Rightarrow> bool
     \<Rightarrow> error + scatter \<times> scatter \<times> scatter" where
  "generate_scatter_trace env G size_method color_method colorscale colorbar_title node_text
     show_edgetext =
     (if \<not> valid_traces env colorscale colorbar_title then Inl ValueError
      else
        ebind (efold (edge_step G show_edgetext) (edges G)
                 \<lparr>st_edge_trace = empty_scatter, st_middle_node_trace = empty_scatter,
                  st_edge_properties = []\<rparr>) (\<lambda>st.
        ebind (efold (node_step env G size_method color_method node_text) (nodes G)
                 empty_scatter) (\<lambda>node_trace.
          let middle = (if show_edgetext
                        then (st_middle_node_trace st)
                               \<lparr>tr_text := map (\<lambda>pv. edge_text env (snd pv)) (st_edge_properties st)\<rparr>
                        else st_middle_node_trace st)
          in Inr (node_trace, st_edge_trace st, middle))))"

section \<open>Figure assembler\<close>

record figure =
  fig_data :: "scatter list"
  fig_title :: string
  fig_titlefont_size :: int
  fig_showlegend :: bool
  fig_annotations :: "annotation list"

text \<open>The body of \<^verbatim>\<open>for edge in G.edges()\<close> in the figure assembler.\<close>

definition arrow_step :: "'n graph \<Rightarrow> 'n \<times> 'n \<times> eattrs \<Rightarrow> annotation list \<Rightarrow> error + annotation list" where
  "arrow_step G edge annotations =
     (let u = fst edge; v = fst (snd edge) in
      ebind (ebind (attr_lookup G u ''pos'') (\<lambda>p. subscript p 0)) (\<lambda>a_x.
      ebind (ebind (attr_lookup G u ''pos'') (\<lambda>p. subscript p 1)) (\<lambda>a_y.
      ebind (ebind (attr_lookup G v ''pos'') (\<lambda>p. subscript p 0)) (\<lambda>t_x.
      ebind (ebind (attr_lookup G v ''pos'') (\<lambda>p. subscript p 1)) (\<lambda>t_y.
        Inr (annotations @ [Arrow a_x a_y t_x t_y]))))))"

definition generate_figure ::
  "'n env \<Rightarrow> 'n graph \<Rightarrow> scatter \<Rightarrow> scatter \<Rightarrow> scatter \<Rightarrow> string \<Rightarrow> int \<Rightarrow> bool \<Rightarrow> string
     \<Rightarrow> error + figure" where
  "generate_figure env G node_trace edge_trace middle_node_trace title titlefont_size showlegend
     annotation_text =
     ebind (if directed G then efold (arrow_step G) (edges G) [Caption annotation_text]
            else Inr [Caption annotation_text]) (\<lambda>annotations.
       if valid_layout env title titlefont_size showlegend annotations
       then Inr \<lparr>fig_data = [edge_trace, node_trace, middle_node_trace],
                 fig_title = title,
                 fig_titlefont_size = titlefont_size,
                 fig_showlegend = showlegend,
                 fig_annotations = annotations\<rparr>
       else Inl ValueError)"

section \<open>plot\<close>

text \<open>
  The keyword arguments of \<^verbatim>\<open>plot\<close> and their defaults. The function mutates the
  caller's graph and returns the figure; the model returns both.
\<close>

record opts =
  title :: string
  layout :: "string option"
  size_method :: method_arg
  color_method :: method_arg
  node_text :: "string list"
  show_edgetext :: bool
  titlefont_size :: int
  showlegend :: bool
  annotation_text :: string
  colorscale :: string
  colorbar_title :: string

definition default_opts :: opts where
  "default_opts =
     \<lparr>title = ''Graph'', layout = None, size_method = MStr ''degree'',
      color_method = MStr ''degree'', node_text = [], show_edgetext = False,
      titlefont_size = 16, showlegend = False, annotation_text = [],
      colorscale = ''YlGnBu'', colorbar_title = []\<rparr>"

definition plot :: "'n env \<Rightarrow> 'n graph \<Rightarrow> opts \<Rightarrow> error + figure \<times> 'n graph" where
  "plot env G opt =
     ebind (layout_step env G (layout opt)) (\<lambda>G1.
     ebind (generate_scatter_trace env G1 (size_method opt) (color_method opt)
              (colorscale opt) (colorbar_title opt) (node_text opt) (show_edgetext opt)) (\<lambda>traces.
     ebind (generate_figure env G1 (fst traces) (fst (snd traces)) (snd (snd traces))
              (title opt) (titlefont_size opt) (showlegend opt) (annotation_text opt)) (\<lambda>fig.
       Inr (fig, G1))))"

section \<open>Notions used to state the properties\<close>

text \<open>The three traces of a figure, in the order the code lists them.\<close>

definition fig_edge_trace :: "figure \<Rightarrow> scatter" where
  "fig_edge_trace fig = fig_data fig ! 0"

definition fig_node_trace :: "figure \<Rightarrow> scatter" where
  "fig_node_trace fig = fig_data fig ! 1"

definition fig_hover_trace :: "figure \<Rightarrow> scatter" where
  "fig_hover_trace fig = fig_data fig ! 2"

text \<open>
  The node pair of an edge as the edge iteration reports it (source first), and the
  unordered pair of its end points.
\<close>

definition edge_pair :: "'n \<times> 'n \<times> eattrs \<Rightarrow> 'n \<times> 'n" where
  "edge_pair e = (fst e, fst (snd e))"

definition unordered_pair :: "'n \<times> 'n \<times> eattrs \<Rightarrow> 'n set" where
  "unordered_pair e = {fst e, fst (snd e)}"

text \<open>The distinct elements of a list in the order of their first occurrence.\<close>

definition first_seen :: "'a list \<Rightarrow> 'a list" where
  "first_seen xs = rev (remdups (rev xs))"

text \<open>
  Aggregation of edge attributes as the specification words it: all attribute items of
  the edges that join a pair, in edge order; and for a list of items one entry per
  attribute name, in the order the names are first seen, with the list of all values of
  that name.
\<close>

definition pair_items :: "('n \<times> 'n \<times> eattrs) list \<Rightarrow> 'n \<times> 'n \<Rightarrow> eattrs" where
  "pair_items es p = concat (map (\<lambda>e. snd (snd e)) (filter (\<lambda>e. edge_pair e = p) es))"

definition values_of :: "eattrs \<Rightarrow> string \<Rightarrow> val list" where
  "values_of items k = map snd (filter (\<lambda>kv. fst kv = k) items)"

definition aggregate :: "eattrs \<Rightarrow> props" where
  "aggregate items = map (\<lambda>k. (k, values_of items k)) (first_seen (map fst items))"

text \<open>
  The position of a node as the loops read it: the two items of its \<open>pos\<close> attribute.
\<close>

definition node_position :: "'n graph \<Rightarrow> 'n \<Rightarrow> (val \<times> val) option" where
  "node_position G n =
     (case node_attrs G n ''pos'' of
        None \<Rightarrow> None
      | Some p \<Rightarrow> (case unpack2 p of Inl e \<Rightarrow> None | Inr xy \<Rightarrow> Some xy))"

text \<open>The midpoint of the positions of the two nodes of a pair.\<close>

definition pair_midpoint :: "'n graph \<Rightarrow> 'n \<times> 'n \<Rightarrow> (val \<times> val) option" where
  "pair_midpoint G p =
     (case node_position G (fst p) of
        None \<Rightarrow> None
      | Some xy0 \<Rightarrow>
          (case node_position G (snd p) of
             None \<Rightarrow> None
           | Some xy1 \<Rightarrow>
               (case midpoint (fst xy0) (fst xy1) of
                  Inl e \<Rightarrow> None
                | Inr mx \<Rightarrow>
                    (case midpoint (snd xy0) (snd xy1) of
                       Inl e \<Rightarrow> None
                     | Inr my \<Rightarrow> Some (mx, my)))))"

text \<open>The arrow from the position of the source of an edge to that of its target.\<close>

definition arrow_between :: "'n graph \<Rightarrow> 'n \<times> 'n \<times> eattrs \<Rightarrow> annotation option" where
  "arrow_between G e =
     (case node_position G (fst e) of
        None \<Rightarrow> None
      | Some xy0 \<Rightarrow>
          (case node_position G (fst (snd e)) of
             None \<Rightarrow> None
           | Some xy1 \<Rightarrow> Some (Arrow (fst xy0) (snd xy0) (fst xy1) (snd xy1))))"

text \<open>
  What is assumed of the library's layout functions: when one returns, it has a position
  for every node of the graph.
\<close>

definition layout_covers :: "'n env \<Rightarrow> 'n graph \<Rightarrow> bool" where
  "layout_covers env G =
     list_all (\<lambda>f. case f G of Inl e \<Rightarrow> True
                    | Inr pos_dict \<Rightarrow> list_all (\<lambda>n. pos_dict n \<noteq> None) (nodes G))
       (map snd (layout_functions env))"

text \<open>
  The colour entry of a node under a colour method that is a string other than
  \<open>degree\<close>: the node's value of the attribute of that name, or the string itself.
\<close>

definition node_color :: "'n graph \<Rightarrow> string \<Rightarrow> 'n \<Rightarrow> val" where
  "node_color G s n = (case node_attrs G n s of None \<Rightarrow> VStr s | Some v \<Rightarrow> v)"

text \<open>A node carries an attribute.\<close>

definition has_attr :: "'n graph \<Rightarrow> string \<Rightarrow> 'n \<Rightarrow> bool" where
  "has_attr G k n = (node_attrs G n k \<noteq> None)"

text \<open>The size block of the node loop has what it needs at a node.\<close>

definition size_ok :: "'n graph \<Rightarrow> method_arg \<Rightarrow> 'n \<Rightarrow> bool" where
  "size_ok G sm n =
     (case sm of MList l \<Rightarrow> True
               | MStr s \<Rightarrow> s = ''degree'' \<or> s = ''static'' \<or> has_attr G s n)"

text \<open>
  The call gets as far as the node loop and through the nodes \<open>pre\<close> of it: the chart
  library accepts the construction of the traces, the edge loop ends without an error,
  and so does the node loop over \<open>pre\<close>.
\<close>

definition reaches :: "'n env \<Rightarrow> 'n graph \<Rightarrow> opts \<Rightarrow> 'n list \<Rightarrow> bool" where
  "reaches env G opt pre \<longleftrightarrow>
     valid_traces env (colorscale opt) (colorbar_title opt) \<and>
     \<not> isl (efold (edge_step G (show_edgetext opt)) (edges G)
              \<lparr>st_edge_trace = empty_scatter, st_middle_node_trace = empty_scatter,
               st_edge_properties = []\<rparr>) \<and>
     \<not> isl (efold (node_step env G (size_method opt) (color_method opt) (node_text opt)) pre
              empty_scatter)"

section \<open>A concrete environment and concrete graphs\<close>

text \<open>
  For evaluating the model on examples: a rendering of values that prints \<open>None\<close>,
  integers, strings and the lists and tuples of them as Python does (floats, which are
  exact rationals here, are printed as a fraction), a \<open>strip\<close> for ASCII whitespace, and a
  layout that puts the nodes in a row. The planar layout of the example environment
  always raises. The example chart library accepts the colour scales that the docstring
  of \<^verbatim>\<open>plot\<close> lists, sizes that are numbers not below 0, colours that are numbers or
  one of a few colour names, and a title font size of at least 1.
\<close>

definition is_space :: "char \<Rightarrow> bool" where
  "is_space c = (c \<in> set [CHR 0x09, CHR 0x0A, CHR 0x0B, CHR 0x0C, CHR 0x0D,
                            CHR 0x1C, CHR 0x1D, CHR 0x1E, CHR 0x1F, CHR 0x20])"

definition ascii_strip :: "string \<Rightarrow> string" where
  "ascii_strip s = rev (dropWhile is_space (rev (dropWhile is_space s)))"

definition demo_colorscales :: "string list" where
  "demo_colorscales =
     [''Greys'', ''YlGnBu'', ''Greens'', ''YlOrRd'', ''Bluered'', ''RdBu'', ''Reds'', ''Blues'',
      ''Picnic'', ''Rainbow'', ''Portland'', ''Jet'', ''Hot'', ''Blackbody'', ''Earth'',
      ''Electric'', ''Viridis'']"

definition demo_valid_size :: "val list \<Rightarrow> bool" where
  "demo_valid_size vs = list_all (\<lambda>v. case num_of v of None \<Rightarrow> False | Some r \<Rightarrow> 0 \<le> r) vs"

definition demo_valid_color :: "val list \<Rightarrow> bool" where
  "demo_valid_color vs =
     list_all (\<lambda>v. case v of
                      VStr s \<Rightarrow> s \<in> set [''red'', ''green'', ''blue'', ''black'', ''white'']
                    | _ \<Rightarrow> (case num_of v of None \<Rightarrow> False | Some r \<Rightarrow> True)) vs"

definition digit_char :: "nat \<Rightarrow> char" where
  "digit_char n = ''0123456789'' ! n"

fun nat_str :: "nat \<Rightarrow> string" where
  "nat_str n = (if n < 10 then [digit_char n] else nat_str (n div 10) @ [digit_char (n mod 10)])"

declare nat_str.simps [simp del]

definition int_str :: "int \<Rightarrow> string" where
  "int_str i = (if i < 0 then CHR ''-'' # nat_str (nat (- i)) else nat_str (nat i))"

fun show_repr :: "val \<Rightarrow> string" where
  "show_repr VNone = ''None''"
| "show_repr (VInt i) = int_str i"
| "show_repr (VFloat r) = int_str (fst (quotient_of r)) @ ''/'' @ int_str (snd (quotient_of r))"
| "show_repr (VStr s) = [CHR 0x27] @ s @ [CHR 0x27]"
| "show_repr (VList l) = ''['' @ join '', '' (map show_repr l) @ '']''"
| "show_repr (VTuple l) =
     (if length l = 1 then ''('' @ join '', '' (map show_repr l) @ '',)''
      else ''('' @ join '', '' (map show_repr l) @ '')'')"

definition show_val :: "val \<Rightarrow> string" where
  "show_val v = (case v of VStr s \<Rightarrow> s | _ \<Rightarrow> show_repr v)"

definition row_layout :: "'n layout_fn" where
  "row_layout G = Inr (map_of (zip (nodes G) (map (\<lambda>i. (of_nat i, 0)) [0..<length (nodes G)])))"

definition demo_env :: "string env" where
  "demo_env =
     \<lparr>node_str = (\<lambda>n. n), fmt = show_val, strip = ascii_strip,
      valid_traces = (\<lambda>cs t. cs \<in> set demo_colorscales),
      valid_size = demo_valid_size, valid_color = demo_valid_color,
      valid_layout = (\<lambda>t s l a. 1 \<le> s),
      random_layout = row_layout, circular_layout = row_layout,
      kamada_kawai_layout = row_layout,
      planar_layout = (\<lambda>G. Inl (LibraryError ''G is not planar.'')),
      spring_layout = row_layout, spectral_layout = row_layout, spiral_layout = row_layout\<rparr>"

text \<open>
  Two nodes with positions, joined by two parallel edges with weights 1 and 2 (an
  undirected multigraph).
\<close>

definition pair_graph :: "string graph" where
  "pair_graph =
     \<lparr>directed = False, nodes = [''a'', ''b''],
      node_attrs = (\<lambda>n. if n = ''a'' then [''pos'' \<mapsto> VTuple [VInt 0, VInt 0]]
                        else if n = ''b'' then [''pos'' \<mapsto> VTuple [VInt 2, VInt 4]]
                        else Map.empty),
      edges = [(''a'', ''b'', [(''weight'', VInt 1)]), (''a'', ''b'', [(''weight'', VInt 2)])],
      degree = (\<lambda>n. 2)\<rparr>"

text \<open>The default call with a literal size list of one entry, and with edge hover text.\<close>

definition short_sizes :: opts where
  "short_sizes = default_opts\<lparr>size_method := MList [VInt 5]\<rparr>"

definition listed_hover :: opts where
  "listed_hover =
     default_opts\<lparr>size_method := MList [VInt 5, VInt 6], color_method := MList [VInt 1, VInt 2],
                  show_edgetext := True\<rparr>"

text \<open>Two nodes of which only the first carries a position.\<close>

definition half_positioned :: "string graph" where
  "half_positioned =
     \<lparr>directed = False, nodes = [''a'', ''b''],
      node_attrs = (\<lambda>n. if n = ''a'' then [''pos'' \<mapsto> VTuple [VInt 0, VInt 0]] else Map.empty),
      edges = [(''a'', ''b'', [])],
      degree = (\<lambda>n. 1)\<rparr>"

text \<open>The path A - B - C without attributes.\<close>

definition path_graph :: "string graph" where
  "path_graph =
     \<lparr>directed = False, nodes = [''A'', ''B'', ''C''],
      node_attrs = (\<lambda>n. Map.empty),
      edges = [(''A'', ''B'', []), (''B'', ''C'', [])],
      degree = (\<lambda>n. if n = ''B'' then 2 else 1)\<rparr>"

text \<open>A directed graph with the edges a to b and b to a.\<close>

definition two_way :: "string graph" where
  "two_way =
     \<lparr>directed = True, nodes = [''a'', ''b''],
      node_attrs = (\<lambda>n. if n = ''a'' then [''pos'' \<mapsto> VTuple [VInt 0, VInt 0]]
                        else if n = ''b'' then [''pos'' \<mapsto> VTuple [VInt 2, VInt 4]]
                        else Map.empty),
      edges = [(''a'', ''b'', []), (''b'', ''a'', [])],
      degree = (\<lambda>n. 2)\<rparr>"

text \<open>
  Two positioned nodes joined by an edge: both carry the attribute \<open>group\<close>, only the
  first carries the attribute \<open>blue\<close>.
\<close>

definition grouped :: "string graph" where
  "grouped =
     \<lparr>directed = False, nodes = [''a'', ''b''],
      node_attrs = (\<lambda>n. if n = ''a'' then [''pos'' \<mapsto> VTuple [VInt 0, VInt 0],
                                             ''group'' \<mapsto> VInt 1, ''blue'' \<mapsto> VInt 3]
                        else if n = ''b'' then [''pos'' \<mapsto> VTuple [VInt 2, VInt 4],
                                                  ''group'' \<mapsto> VInt 2]
                        else Map.empty),
      edges = [(''a'', ''b'', [])],
      degree = (\<lambda>n. 1)\<rparr>"

text \<open>Further calls: other size and colour methods, hover text for the nodes.\<close>

definition static_sizes :: opts where
  "static_sizes = default_opts\<lparr>size_method := MStr ''static''\<rparr>"

definition hover_opts :: opts where
  "hover_opts = default_opts\<lparr>show_edgetext := True\<rparr>"

definition color_group :: opts where
  "color_group = default_opts\<lparr>color_method := MStr ''group''\<rparr>"

definition color_red :: opts where
  "color_red = default_opts\<lparr>color_method := MStr ''red''\<rparr>"



definition text_blue :: opts where
  "text_blue = default_opts\<lparr>node_text := [''group'', ''blue'']\<rparr>"

text \<open>A single node whose position has three coordinates.\<close>

definition solid :: "string graph" where
  "solid =
     \<lparr>directed = False, nodes = [''a''],
      node_attrs = (\<lambda>n. if n = ''a'' then [''pos'' \<mapsto> VTuple [VInt 0, VInt 0, VInt 0]]
                        else Map.empty),
      edges = [],
      degree = (\<lambda>n. 0)\<rparr>"

text \<open>
  The invariant of the edge loop that ties the hover markers to the pair dictionary: its
  keys are distinct and there is one marker per key.
\<close>

definition hover_inv :: "'n estate \<Rightarrow> bool" where
  "hover_inv st \<longleftrightarrow>
     distinct (map fst (st_edge_properties st)) \<and>
     length (tr_x (st_middle_node_trace st)) = length (st_edge_properties st) \<and>
     length (tr_y (st_middle_node_trace st)) = length (st_edge_properties st)"

text \<open>
  The pair dictionary as the specification describes it, built from the list of edges:
  one entry per distinct pair, in the order the pairs are first seen, holding the
  aggregated attributes of all edges of the pair. The second invariant of the edge loop
  says that after the edges \<open>es\<close> the dictionary is that list and the markers are the
  midpoints of its pairs.
\<close>

definition hover_entries :: "('n \<times> 'n \<times> eattrs) list \<Rightarrow> (('n \<times> 'n) \<times> props) list" where
  "hover_entries es =
     map (\<lambda>p. (p, aggregate (pair_items es p))) (first_seen (map edge_pair es))"

definition hover_ok :: "'n graph \<Rightarrow> ('n \<times> 'n \<times> eattrs) list \<Rightarrow> 'n estate \<Rightarrow> bool" where
  "hover_ok G es st \<longleftrightarrow>
     st_edge_properties st = hover_entries es \<and>
     length (tr_x (st_middle_node_trace st)) = length (tr_y (st_middle_node_trace st)) \<and>
     map Some (zip (tr_x (st_middle_node_trace st)) (tr_y (st_middle_node_trace st))) =
       map (pair_midpoint G) (first_seen (map edge_pair es))"

section \<open>Basic facts about the error monad and the loops\<close>

lemma ebind_Inl [simp]: "ebind (Inl e) f = Inl e" by (simp add: ebind_def)
lemma ebind_Inr [simp]: "ebind (Inr a) f = f a" by (simp add: ebind_def)

lemma ebind_eq_Inr: "ebind m f = Inr b \<longleftrightarrow> (\<exists>a. m = Inr a \<and> f a = Inr b)"
  by (cases m) simp_all


lemma efold_append: "efold f (xs @ ys) s = ebind (efold f xs s) (efold f ys)"
  by (induction xs arbitrary: s) (simp_all split: sum.splits)

lemma efold_snoc: "efold f (xs @ [a]) s = ebind (efold f xs s) (f a)"
  by (cases "efold f xs s") (simp_all add: efold_append split: sum.splits)

lemma efold_invariant:
  assumes "efold f xs s = Inr s'" and "P s"
    and "\<And>a t t'. a \<in> set xs \<Longrightarrow> P t \<Longrightarrow> f a t = Inr t' \<Longrightarrow> P t'"
  shows "P s'"
  using assms
proof (induction xs arbitrary: s)
  case Nil
  then show ?case by simp
next
  case (Cons a xs)
  from Cons.prems(1) obtain t where t: "f a s = Inr t" and r: "efold f xs t = Inr s'"
    by (auto split: sum.splits)
  have "P t" using Cons.prems(2) t Cons.prems(3) [of a s t] by simp
  moreover have "\<And>b u u'. b \<in> set xs \<Longrightarrow> P u \<Longrightarrow> f b u = Inr u' \<Longrightarrow> P u'"
    using Cons.prems(3) by (meson list.set_intros(2))
  ultimately show ?case using Cons.IH [OF r] by blast
qed

lemma set_node_attributes_frame [simp]:
  "nodes (set_node_attributes G vals name) = nodes G"
  "edges (set_node_attributes G vals name) = edges G"
  "degree (set_node_attributes G vals name) = degree G"
  "directed (set_node_attributes G vals name) = directed G"
  by (simp_all add: set_node_attributes_def)

lemma apply_layout_frame:
  assumes "apply_layout env G l = Inr G'"
  shows "nodes G' = nodes G \<and> edges G' = edges G \<and> degree G' = degree G \<and> directed G' = directed G"
  using assms by (auto simp: apply_layout_def ebind_eq_Inr split: option.splits)

lemma layout_step_frame:
  assumes "layout_step env G l = Inr G'"
  shows "nodes G' = nodes G \<and> edges G' = edges G \<and> degree G' = degree G \<and> directed G' = directed G"
  using assms apply_layout_frame [of env G _ G']
  by (auto simp: layout_step_def split: if_splits)

section \<open>The node loop\<close>

text \<open>A loop whose every step appends one entry to a sequence, or sets it to a fixed one.\<close>

lemma efold_appends:
  assumes "efold f xs s = Inr s'"
    and "\<And>a t t'. f a t = Inr t' \<Longrightarrow> F t' = F t @ [g a]"
  shows "F s' = F s @ map g xs"
  using assms(1)
proof (induction xs arbitrary: s)
  case Nil
  then show ?case by simp
next
  case (Cons a xs)
  from Cons.prems obtain t where t: "f a s = Inr t" and r: "efold f xs t = Inr s'"
    by (auto split: sum.splits)
  from assms(2) [OF t] Cons.IH [OF r] show ?case by simp
qed

lemma efold_sets:
  assumes "efold f xs s = Inr s'"
    and "\<And>a t t'. f a t = Inr t' \<Longrightarrow> F t' = l"
  shows "F s' = (if xs = [] then F s else l)"
  using assms(1)
proof (induction xs arbitrary: s)
  case Nil
  then show ?case by simp
next
  case (Cons a xs)
  from Cons.prems obtain t where t: "f a s = Inr t" and r: "efold f xs t = Inr s'"
    by (auto split: sum.splits)
  from assms(2) [OF t] Cons.IH [OF r] show ?case by simp
qed

lemma assign_size_Inr: "assign_size env v = Inr v' \<Longrightarrow> v' = v"
  by (simp add: assign_size_def split: if_splits)

lemma assign_color_Inr: "assign_color env v = Inr v' \<Longrightarrow> v' = v"
  by (simp add: assign_color_def split: if_splits)

lemma size_step_MStr:
  assumes "size_step env G (MStr s) n sizes = Inr sizes'"
  shows "\<exists>v. sizes' = sizes @ [v]"
  using assms
  by (auto simp: size_step_def ebind_eq_Inr dest!: assign_size_Inr split: if_splits)

lemma size_step_MList:
  assumes "size_step env G (MList l) n sizes = Inr sizes'"
  shows "sizes' = l"
  using assms by (auto simp: size_step_def dest!: assign_size_Inr)

lemma size_step_degree:
  assumes "size_step env G (MStr ''degree'') n sizes = Inr sizes'"
  shows "sizes' = sizes @ [VInt (degree G n + 12)]"
  using assms by (auto simp: size_step_def dest!: assign_size_Inr)

lemma size_step_static:
  assumes "size_step env G (MStr ''static'') n sizes = Inr sizes'"
  shows "sizes' = sizes @ [VInt 12]"
  using assms by (auto simp: size_step_def dest!: assign_size_Inr)

lemma color_step_attr:
  assumes "color_step env G (MStr c) n colors = Inr colors'" and "c \<noteq> ''degree''"
  shows "colors' = colors @ [node_color G c n]"
proof (cases "node_attrs G n c")
  case None
  with assms show ?thesis
    by (auto simp: color_step_def node_color_def dom_def dest!: assign_color_Inr)
next
  case (Some v)
  with assms show ?thesis
    by (auto simp: color_step_def node_color_def dom_def dest!: assign_color_Inr)
qed

lemma color_step_degree:
  assumes "color_step env G (MStr ''degree'') n colors = Inr colors'"
  shows "colors' = colors @ [VInt (degree G n)]"
  using assms by (auto simp: color_step_def dest!: assign_color_Inr)

lemma color_step_MList:
  assumes "color_step env G (MList l) n colors = Inr colors'"
  shows "colors' = l"
  using assms by (auto simp: color_step_def dest!: assign_color_Inr)

lemma node_step_Inr:
  assumes "node_step env G sm cm ntext n nt = Inr nt'"
  shows "\<exists>a b t sizes colors.
           size_step env G sm n (marker_size nt) = Inr sizes \<and>
           color_step env G cm n (marker_color nt) = Inr colors \<and>
           nt' = nt\<lparr>tr_x := tr_x nt @ [a], tr_y := tr_y nt @ [b], tr_text := tr_text nt @ [t],
                     marker_size := sizes, marker_color := colors\<rparr>"
  using assms unfolding node_step_def Let_def ebind_eq_Inr by blast

lemma node_step_sizes:
  assumes "node_step env G sm cm ntext n nt = Inr nt'"
  shows "size_step env G sm n (marker_size nt) = Inr (marker_size nt')"
  using node_step_Inr [OF assms] by auto

lemma node_step_colors:
  assumes "node_step env G sm cm ntext n nt = Inr nt'"
  shows "color_step env G cm n (marker_color nt) = Inr (marker_color nt')"
  using node_step_Inr [OF assms] by auto

lemma node_loop_lengths:
  assumes "efold (node_step env G sm cm ntext) ns nt = Inr nt'"
  shows "length (tr_x nt') = length (tr_x nt) + length ns \<and>
         length (tr_y nt') = length (tr_y nt) + length ns \<and>
         length (tr_text nt') = length (tr_text nt) + length ns"
  using assms
proof (induction ns arbitrary: nt)
  case Nil
  then show ?case by simp
next
  case (Cons n ns)
  from Cons.prems obtain t where t: "node_step env G sm cm ntext n nt = Inr t"
    and r: "efold (node_step env G sm cm ntext) ns t = Inr nt'"
    by (auto split: sum.splits)
  from node_step_Inr [OF t] Cons.IH [OF r] show ?case by auto
qed

lemma node_loop_sizes_MStr:
  assumes "efold (node_step env G (MStr s) cm ntext) ns nt = Inr nt'"
  shows "length (marker_size nt') = length (marker_size nt) + length ns"
  using assms
proof (induction ns arbitrary: nt)
  case Nil
  then show ?case by simp
next
  case (Cons n ns)
  from Cons.prems obtain t where t: "node_step env G (MStr s) cm ntext n nt = Inr t"
    and r: "efold (node_step env G (MStr s) cm ntext) ns t = Inr nt'"
    by (auto split: sum.splits)
  from size_step_MStr [OF node_step_sizes [OF t]] Cons.IH [OF r] show ?case by auto
qed

lemma node_loop_sizes_MList:
  assumes "efold (node_step env G (MList l) cm ntext) ns nt = Inr nt'"
  shows "marker_size nt' = (if ns = [] then marker_size nt else l)"
  by (rule efold_sets [OF assms]) (rule size_step_MList [OF node_step_sizes])

lemma node_loop_sizes_degree:
  assumes "efold (node_step env G (MStr ''degree'') cm ntext) ns nt = Inr nt'"
  shows "marker_size nt' = marker_size nt @ map (\<lambda>n. VInt (degree G n + 12)) ns"
  by (rule efold_appends [OF assms]) (rule size_step_degree [OF node_step_sizes])

lemma node_loop_sizes_static:
  assumes "efold (node_step env G (MStr ''static'') cm ntext) ns nt = Inr nt'"
  shows "marker_size nt' = marker_size nt @ map (\<lambda>n. VInt 12) ns"
  by (rule efold_appends [OF assms]) (rule size_step_static [OF node_step_sizes])

lemma node_loop_colors_attr:
  assumes "efold (node_step env G sm (MStr c) ntext) ns nt = Inr nt'" and "c \<noteq> ''degree''"
  shows "marker_color nt' = marker_color nt @ map (node_color G c) ns"
  by (rule efold_appends [OF assms(1)]) (rule color_step_attr [OF node_step_colors assms(2)])

lemma node_loop_colors_degree:
  assumes "efold (node_step env G sm (MStr ''degree'') ntext) ns nt = Inr nt'"
  shows "marker_color nt' = marker_color nt @ map (\<lambda>n. VInt (degree G n)) ns"
  by (rule efold_appends [OF assms]) (rule color_step_degree [OF node_step_colors])

lemma node_loop_colors_MList:
  assumes "efold (node_step env G sm (MList l) ntext) ns nt = Inr nt'"
  shows "marker_color nt' = (if ns = [] then marker_color nt else l)"
  by (rule efold_sets [OF assms]) (rule color_step_MList [OF node_step_colors])

section \<open>The edge loop\<close>

lemma length_update:
  "length (AList.update k v al) = (if k \<in> fst ` set al then length al else Suc (length al))"
proof -
  have "length (AList.update k v al) = length (map fst (AList.update k v al))" by simp
  also have "\<dots> = (if k \<in> fst ` set al then length al else Suc (length al))"
    by (simp only: update_keys) simp
  finally show ?thesis .
qed

lemma hover_step_Inr:
  assumes "hover_step p x0 y0 x1 y1 d st = Inr st'"
  shows "st_edge_trace st' = st_edge_trace st \<and>
         (if map_of (st_edge_properties st) p = None
          then \<exists>mx my. midpoint x0 x1 = Inr mx \<and> midpoint y0 y1 = Inr my \<and>
                 st_edge_properties st' =
                   AList.update p (foldl add_property [] d) (st_edge_properties st) \<and>
                 st_middle_node_trace st' =
                   (st_middle_node_trace st)
                     \<lparr>tr_x := tr_x (st_middle_node_trace st) @ [mx],
                      tr_y := tr_y (st_middle_node_trace st) @ [my]\<rparr>
          else \<exists>ps. map_of (st_edge_properties st) p = Some ps \<and>
                 st_edge_properties st' =
                   AList.update p (foldl add_property ps d) (st_edge_properties st) \<and>
                 st_middle_node_trace st' = st_middle_node_trace st)"
proof (cases "map_of (st_edge_properties st) p")
  case None
  with assms show ?thesis
    by (auto simp: hover_step_def ebind_eq_Inr update_conv')
next
  case (Some ps)
  with assms show ?thesis by (auto simp: hover_step_def)
qed

lemma edge_step_Inr:
  assumes "edge_step G sh e st = Inr st'"
  shows "\<exists>p0 p1 x0 y0 x1 y1.
           attr_lookup G (fst e) ''pos'' = Inr p0 \<and> unpack2 p0 = Inr (x0, y0) \<and>
           attr_lookup G (fst (snd e)) ''pos'' = Inr p1 \<and> unpack2 p1 = Inr (x1, y1) \<and>
           (let st1 = st\<lparr>st_edge_trace :=
                        (st_edge_trace st)\<lparr>tr_x := tr_x (st_edge_trace st) @ [x0, x1, VNone],
                                         tr_y := tr_y (st_edge_trace st) @ [y0, y1, VNone]\<rparr>\<rparr>
            in if sh then hover_step (edge_pair e) x0 y0 x1 y1 (snd (snd e)) st1 = Inr st'
               else st' = st1)"
  using assms unfolding edge_step_def Let_def ebind_eq_Inr edge_pair_def
  by (auto split: if_splits)

lemma edge_step_trace:
  assumes "edge_step G sh e st = Inr st'"
  shows "length (tr_x (st_edge_trace st')) = length (tr_x (st_edge_trace st)) + 3 \<and>
         length (tr_y (st_edge_trace st')) = length (tr_y (st_edge_trace st)) + 3"
proof -
  from edge_step_Inr [OF assms] obtain x0 y0 x1 y1 where
    h: "let st1 = st\<lparr>st_edge_trace :=
                        (st_edge_trace st)\<lparr>tr_x := tr_x (st_edge_trace st) @ [x0, x1, VNone],
                                         tr_y := tr_y (st_edge_trace st) @ [y0, y1, VNone]\<rparr>\<rparr>
            in if sh then hover_step (edge_pair e) x0 y0 x1 y1 (snd (snd e)) st1 = Inr st'
               else st' = st1"
    by blast
  show ?thesis
  proof (cases sh)
    case True
    with h hover_step_Inr [of "edge_pair e" x0 y0 x1 y1 "snd (snd e)" _ st'] show ?thesis
      by (simp add: Let_def)
  next
    case False
    with h show ?thesis by (simp add: Let_def)
  qed
qed

lemma edge_loop_trace:
  assumes "efold (edge_step G sh) es st = Inr st'"
  shows "length (tr_x (st_edge_trace st')) = length (tr_x (st_edge_trace st)) + 3 * length es \<and>
         length (tr_y (st_edge_trace st')) = length (tr_y (st_edge_trace st)) + 3 * length es"
  using assms
proof (induction es arbitrary: st)
  case Nil
  then show ?case by simp
next
  case (Cons e es)
  from Cons.prems obtain t where t: "edge_step G sh e st = Inr t"
    and r: "efold (edge_step G sh) es t = Inr st'"
    by (auto split: sum.splits)
  from edge_step_trace [OF t] Cons.IH [OF r] show ?case by simp
qed

lemma edge_step_hover:
  assumes "edge_step G True e st = Inr st'" and "hover_inv st"
  shows "hover_inv st' \<and>
         fst ` set (st_edge_properties st') = insert (edge_pair e) (fst ` set (st_edge_properties st))"
proof -
  from edge_step_Inr [OF assms(1)] obtain x0 y0 x1 y1 st1 where
    st1: "st1 = st\<lparr>st_edge_trace :=
                        (st_edge_trace st)\<lparr>tr_x := tr_x (st_edge_trace st) @ [x0, x1, VNone],
                                         tr_y := tr_y (st_edge_trace st) @ [y0, y1, VNone]\<rparr>\<rparr>"
    and h: "hover_step (edge_pair e) x0 y0 x1 y1 (snd (snd e)) st1 = Inr st'"
    by (auto simp: Let_def)
  have p: "st_edge_properties st1 = st_edge_properties st"
    and m: "st_middle_node_trace st1 = st_middle_node_trace st" using st1 by simp_all
  show ?thesis
  proof (cases "map_of (st_edge_properties st) (edge_pair e)")
    case None
    then have notin: "edge_pair e \<notin> fst ` set (st_edge_properties st)"
      by (simp add: map_of_eq_None_iff)
    from hover_step_Inr [OF h] None p m obtain mx my where
      "st_edge_properties st' =
         AList.update (edge_pair e) (foldl add_property [] (snd (snd e))) (st_edge_properties st)"
      "st_middle_node_trace st' =
         (st_middle_node_trace st)\<lparr>tr_x := tr_x (st_middle_node_trace st) @ [mx],
                                    tr_y := tr_y (st_middle_node_trace st) @ [my]\<rparr>"
      by auto
    then show ?thesis using assms(2) notin
      by (simp add: hover_inv_def distinct_update dom_update length_update)
  next
    case (Some ps)
    then have isin: "edge_pair e \<in> fst ` set (st_edge_properties st)"
      by (metis map_of_eq_None_iff option.distinct(1))
    from hover_step_Inr [OF h] Some p m have
      "st_edge_properties st' =
         AList.update (edge_pair e) (foldl add_property ps (snd (snd e))) (st_edge_properties st)"
      "st_middle_node_trace st' = st_middle_node_trace st"
      by auto
    then show ?thesis using assms(2) isin
      by (auto simp: hover_inv_def distinct_update dom_update length_update)
  qed
qed

lemma edge_loop_hover:
  assumes "efold (edge_step G True) es st = Inr st'" and "hover_inv st"
  shows "hover_inv st' \<and>
         fst ` set (st_edge_properties st') = edge_pair ` set es \<union> fst ` set (st_edge_properties st)"
  using assms
proof (induction es arbitrary: st)
  case Nil
  then show ?case by simp
next
  case (Cons e es)
  from Cons.prems obtain t where t: "edge_step G True e st = Inr t"
    and r: "efold (edge_step G True) es t = Inr st'"
    by (auto split: sum.splits)
  from edge_step_hover [OF t Cons.prems(2)] Cons.IH [OF r] show ?case by auto
qed

lemma edge_loop_hover_count:
  assumes "efold (edge_step G True) es
             \<lparr>st_edge_trace = empty_scatter, st_middle_node_trace = empty_scatter,
              st_edge_properties = []\<rparr> = Inr st'"
  shows "length (st_edge_properties st') = card (edge_pair ` set es) \<and>
         length (tr_x (st_middle_node_trace st')) = card (edge_pair ` set es) \<and>
         length (tr_y (st_middle_node_trace st')) = card (edge_pair ` set es)"
proof -
  have "hover_inv \<lparr>st_edge_trace = empty_scatter, st_middle_node_trace = empty_scatter,
              st_edge_properties = []\<rparr>"
    by (simp add: hover_inv_def empty_scatter_def)
  from edge_loop_hover [OF assms this]
  have inv: "hover_inv st'" and keys: "fst ` set (st_edge_properties st') = edge_pair ` set es"
    by simp_all
  from inv have "distinct (map fst (st_edge_properties st'))" by (simp add: hover_inv_def)
  from distinct_card [OF this]
  have "length (st_edge_properties st') = card (fst ` set (st_edge_properties st'))" by simp
  with keys inv show ?thesis by (simp add: hover_inv_def)
qed

lemma edge_loop_no_hover:
  assumes "efold (edge_step G False) es st = Inr st'"
  shows "st_middle_node_trace st' = st_middle_node_trace st \<and>
         st_edge_properties st' = st_edge_properties st"
  using assms
proof (induction es arbitrary: st)
  case Nil
  then show ?case by simp
next
  case (Cons e es)
  from Cons.prems obtain t where t: "edge_step G False e st = Inr t"
    and r: "efold (edge_step G False) es t = Inr st'"
    by (auto split: sum.splits)
  from edge_step_Inr [OF t] Cons.IH [OF r] show ?case by (auto simp: Let_def)
qed

section \<open>Decomposing a successful call\<close>

lemma generate_scatter_trace_Inr:
  assumes "generate_scatter_trace env G sm cm cs ct ntext sh = Inr (nt, et, mt)"
  shows "valid_traces env cs ct \<and>
         (\<exists>st. efold (edge_step G sh) (edges G)
                 \<lparr>st_edge_trace = empty_scatter, st_middle_node_trace = empty_scatter,
                  st_edge_properties = []\<rparr> = Inr st \<and>
              efold (node_step env G sm cm ntext) (nodes G) empty_scatter = Inr nt \<and>
              et = st_edge_trace st \<and>
              mt = (if sh then (st_middle_node_trace st)
                            \<lparr>tr_text := map (\<lambda>pv. edge_text env (snd pv)) (st_edge_properties st)\<rparr>
                    else st_middle_node_trace st))"
proof -
  have v: "valid_traces env cs ct"
    using assms by (cases "valid_traces env cs ct") (simp_all add: generate_scatter_trace_def)
  with assms have "ebind (efold (edge_step G sh) (edges G)
                 \<lparr>st_edge_trace = empty_scatter, st_middle_node_trace = empty_scatter,
                  st_edge_properties = []\<rparr>) (\<lambda>st.
        ebind (efold (node_step env G sm cm ntext) (nodes G) empty_scatter) (\<lambda>node_trace.
          Inr (node_trace, st_edge_trace st,
               if sh then (st_middle_node_trace st)
                            \<lparr>tr_text := map (\<lambda>pv. edge_text env (snd pv)) (st_edge_properties st)\<rparr>
               else st_middle_node_trace st))) = Inr (nt, et, mt)"
    by (simp add: generate_scatter_trace_def Let_def)
  then obtain st ntr where
    "efold (edge_step G sh) (edges G)
       \<lparr>st_edge_trace = empty_scatter, st_middle_node_trace = empty_scatter,
        st_edge_properties = []\<rparr> = Inr st"
    "efold (node_step env G sm cm ntext) (nodes G) empty_scatter = Inr ntr"
    "(ntr, st_edge_trace st,
      if sh then (st_middle_node_trace st)
                   \<lparr>tr_text := map (\<lambda>pv. edge_text env (snd pv)) (st_edge_properties st)\<rparr>
      else st_middle_node_trace st) = (nt, et, mt)"
    unfolding ebind_eq_Inr by blast
  with v show ?thesis by (intro conjI exI [of _ st]) simp_all
qed

lemma generate_figure_Inr:
  assumes "generate_figure env G nt et mt t ts sl atx = Inr fig"
  shows "fig_data fig = [et, nt, mt] \<and> fig_title fig = t \<and> fig_titlefont_size fig = ts \<and>
         fig_showlegend fig = sl \<and>
         (if directed G then efold (arrow_step G) (edges G) [Caption atx] = Inr (fig_annotations fig)
          else fig_annotations fig = [Caption atx])"
  using assms unfolding generate_figure_def ebind_eq_Inr by (auto split: if_splits)

lemma plot_Inr:
  assumes "plot env G opt = Inr (fig, G')"
  shows "\<exists>nt et mt.
           layout_step env G (layout opt) = Inr G' \<and>
           generate_scatter_trace env G' (size_method opt) (color_method opt) (colorscale opt)
             (colorbar_title opt) (node_text opt) (show_edgetext opt) = Inr (nt, et, mt) \<and>
           generate_figure env G' nt et mt (title opt) (titlefont_size opt) (showlegend opt)
             (annotation_text opt) = Inr fig"
  using assms unfolding plot_def ebind_eq_Inr by auto

lemma plot_traces:
  assumes "plot env G opt = Inr (fig, G')"
  shows "layout_step env G (layout opt) = Inr G' \<and>
         generate_scatter_trace env G' (size_method opt) (color_method opt) (colorscale opt)
             (colorbar_title opt) (node_text opt) (show_edgetext opt) =
           Inr (fig_node_trace fig, fig_edge_trace fig, fig_hover_trace fig)"
proof -
  from plot_Inr [OF assms] obtain nt et mt where
    l: "layout_step env G (layout opt) = Inr G'" and
    g: "generate_scatter_trace env G' (size_method opt) (color_method opt) (colorscale opt)
             (colorbar_title opt) (node_text opt) (show_edgetext opt) = Inr (nt, et, mt)" and
    f: "generate_figure env G' nt et mt (title opt) (titlefont_size opt) (showlegend opt)
             (annotation_text opt) = Inr fig"
    by blast
  from generate_figure_Inr [OF f] have "fig_data fig = [et, nt, mt]" by simp
  then show ?thesis using l g by (simp add: fig_edge_trace_def fig_node_trace_def fig_hover_trace_def)
qed

section \<open>The layout step\<close>

lemma get_node_attributes_Nil:
  "get_node_attributes G k = [] \<longleftrightarrow> (\<forall>n\<in>set (nodes G). \<not> has_attr G k n)"
  by (auto simp: get_node_attributes_def List.map_filter_def filter_empty_conv has_attr_def)

lemma apply_layout_Inr:
  assumes "apply_layout env G l = Inr G'"
  shows "\<exists>f pd. map_of (layout_functions env) l = Some f \<and> f G = Inr pd \<and>
           G' = set_node_attributes G (map_option pos_val \<circ> pd) ''pos''"
  using assms by (auto simp: apply_layout_def ebind_eq_Inr split: option.splits)

lemma layout_covers_dom:
  assumes "layout_covers env G" and "map_of (layout_functions env) l = Some f" and "f G = Inr pd"
    and "n \<in> set (nodes G)"
  shows "\<exists>x y. pd n = Some (x, y)"
proof -
  from assms(2) have "f \<in> set (map snd (layout_functions env))"
    by (metis map_of_SomeD image_eqI set_map snd_conv)
  with assms(1,3) have "list_all (\<lambda>n. pd n \<noteq> None) (nodes G)"
    by (auto simp: layout_covers_def list_all_iff split: sum.splits)
  with assms(4) show ?thesis by (auto simp: list_all_iff)
qed

lemma apply_layout_covers:
  assumes "apply_layout env G l = Inr G'" and "layout_covers env G" and "n \<in> set (nodes G')"
  shows "\<exists>x y. node_attrs G' n ''pos'' = Some (VTuple [VFloat x, VFloat y])"
proof -
  from apply_layout_Inr [OF assms(1)] obtain f pd where
    f: "map_of (layout_functions env) l = Some f" "f G = Inr pd"
    and G': "G' = set_node_attributes G (map_option pos_val \<circ> pd) ''pos''"
    by blast
  from G' assms(3) have n: "n \<in> set (nodes G)" by simp
  from layout_covers_dom [OF assms(2) f n] obtain x y where "pd n = Some (x, y)" by blast
  with G' n show ?thesis by (simp add: set_node_attributes_def pos_val_def)
qed

section \<open>What a successful call has gone through\<close>

lemma plot_node_loop:
  assumes "plot env G opt = Inr (fig, G')"
  shows "layout_step env G (layout opt) = Inr G' \<and>
         efold (node_step env G' (size_method opt) (color_method opt) (node_text opt))
           (nodes G') empty_scatter = Inr (fig_node_trace fig)"
  using plot_traces [OF assms] generate_scatter_trace_Inr by blast

lemma plot_edge_loop:
  assumes "plot env G opt = Inr (fig, G')"
  shows "\<exists>st. efold (edge_step G' (show_edgetext opt)) (edges G')
                \<lparr>st_edge_trace = empty_scatter, st_middle_node_trace = empty_scatter,
                 st_edge_properties = []\<rparr> = Inr st \<and>
              fig_edge_trace fig = st_edge_trace st \<and>
              fig_hover_trace fig =
                (if show_edgetext opt
                 then (st_middle_node_trace st)
                        \<lparr>tr_text := map (\<lambda>pv. edge_text env (snd pv)) (st_edge_properties st)\<rparr>
                 else st_middle_node_trace st)"
  using plot_traces [OF assms] generate_scatter_trace_Inr by blast

subsection \<open>The steps of a loop\<close>

lemma efold_steps:
  assumes "efold f xs s = Inr s'" and "a \<in> set xs"
  shows "\<exists>t t'. f a t = Inr t'"
  using assms
proof (induction xs arbitrary: s)
  case Nil
  then show ?case by simp
next
  case (Cons b xs)
  from Cons.prems(1) obtain t where t: "f b s = Inr t" and r: "efold f xs t = Inr s'"
    by (auto split: sum.splits)
  show ?case
  proof (cases "a = b")
    case True
    with t show ?thesis by blast
  next
    case False
    with Cons.prems(2) have "a \<in> set xs" by simp
    from Cons.IH [OF r this] show ?thesis .
  qed
qed


lemma efold_stops:
  assumes "efold f pre s = Inr t" and "f b t = Inl e"
  shows "efold f (pre @ b # post) s = Inl e"
  using assms by (simp add: efold_append)

subsection \<open>Positions\<close>

lemma node_position_Some:
  "node_position G n = Some xy \<longleftrightarrow>
     (\<exists>p. attr_lookup G n ''pos'' = Inr p \<and> unpack2 p = Inr xy)"
  by (auto simp: node_position_def attr_lookup_def split: option.splits sum.splits)

lemma node_position_None:
  "node_position G n = None \<Longrightarrow>
     ebind (attr_lookup G n ''pos'') (\<lambda>p. ebind (unpack2 p) f) =
       (case attr_lookup G n ''pos'' of Inl e \<Rightarrow> Inl e
        | Inr p \<Rightarrow> (case unpack2 p of Inl e \<Rightarrow> Inl e | Inr xy \<Rightarrow> Inl TypeError))"
  by (auto simp: node_position_def attr_lookup_def split: option.splits sum.splits)

lemma unpack2_subscript:
  assumes "unpack2 p = Inr (a, b)"
  shows "subscript p 0 = Inr a \<and> subscript p 1 = Inr b"
proof -
  from assms obtain l where l: "seq_items p = Some l"
    by (auto simp: unpack2_def split: option.splits)
  with assms have "l = [a, b]" by (auto simp: unpack2_def split: list.splits)
  with l show ?thesis by (simp add: subscript_def)
qed

lemma edge_loop_positions:
  assumes "efold (edge_step G sh) es st = Inr st'" and "e \<in> set es"
  shows "\<exists>x0 y0 x1 y1. node_position G (fst e) = Some (x0, y0) \<and>
           node_position G (fst (snd e)) = Some (x1, y1)"
proof -
  from efold_steps [OF assms] obtain t t' where "edge_step G sh e t = Inr t'" by blast
  from edge_step_Inr [OF this] show ?thesis by (auto simp: node_position_Some)
qed

subsection \<open>The arrow loop\<close>

lemma arrow_step_eq:
  assumes "node_position G (fst e) = Some (x0, y0)" and "node_position G (fst (snd e)) = Some (x1, y1)"
  shows "arrow_step G e anns = Inr (anns @ [Arrow x0 y0 x1 y1])"
proof -
  from assms(1) obtain q0 where q0: "attr_lookup G (fst e) ''pos'' = Inr q0" "unpack2 q0 = Inr (x0, y0)"
    by (auto simp: node_position_Some)
  from assms(2) obtain q1 where q1: "attr_lookup G (fst (snd e)) ''pos'' = Inr q1" "unpack2 q1 = Inr (x1, y1)"
    by (auto simp: node_position_Some)
  from unpack2_subscript [OF q0(2)] unpack2_subscript [OF q1(2)] q0(1) q1(1)
  show ?thesis by (simp add: arrow_step_def Let_def)
qed

lemma arrow_loop:
  assumes "\<And>e. e \<in> set es \<Longrightarrow> \<exists>x0 y0 x1 y1. node_position G (fst e) = Some (x0, y0) \<and>
           node_position G (fst (snd e)) = Some (x1, y1)"
  shows "\<exists>arrows. efold (arrow_step G) es anns = Inr (anns @ arrows) \<and>
           map Some arrows = map (arrow_between G) es"
  using assms
proof (induction es arbitrary: anns)
  case Nil
  then show ?case by simp
next
  case (Cons e es)
  from Cons.prems [of e] obtain x0 y0 x1 y1 where
    p: "node_position G (fst e) = Some (x0, y0)" "node_position G (fst (snd e)) = Some (x1, y1)"
    by auto
  from arrow_step_eq [OF p] have s: "arrow_step G e anns = Inr (anns @ [Arrow x0 y0 x1 y1])" .
  have "\<exists>arrows. efold (arrow_step G) es (anns @ [Arrow x0 y0 x1 y1]) =
          Inr ((anns @ [Arrow x0 y0 x1 y1]) @ arrows) \<and> map Some arrows = map (arrow_between G) es"
    by (rule Cons.IH, rule Cons.prems, simp)
  then obtain arrows where
    r: "efold (arrow_step G) es (anns @ [Arrow x0 y0 x1 y1]) = Inr ((anns @ [Arrow x0 y0 x1 y1]) @ arrows)"
    and m: "map Some arrows = map (arrow_between G) es" by blast
  have "arrow_between G e = Some (Arrow x0 y0 x1 y1)" using p by (simp add: arrow_between_def)
  with s r m show ?case by (intro exI [of _ "Arrow x0 y0 x1 y1 # arrows"]) simp
qed

section \<open>Errors of the loops and of the call\<close>

subsection \<open>Which errors the parts can raise\<close>










subsection \<open>The hover text of a node\<close>

lemma text_step_eq:
  "text_step env G n p t =
     (case node_attrs G n p of
        None \<Rightarrow> Inl (KeyError p)
      | Some v \<Rightarrow> Inr (t @ ''<br></br>'' @ p @ '': '' @ fmt env v))"
  by (simp add: text_step_def attr_lookup_def split: option.splits)

lemma text_loop_succeeds:
  assumes "\<forall>q\<in>set ps. has_attr G q n"
  shows "\<exists>t'. efold (text_step env G n) ps t = Inr t'"
  using assms
proof (induction ps arbitrary: t)
  case Nil
  then show ?case by simp
next
  case (Cons q ps)
  then obtain v where "node_attrs G n q = Some v" by (auto simp: has_attr_def)
  then have "text_step env G n q t = Inr (t @ ''<br></br>'' @ q @ '': '' @ fmt env v)"
    by (simp add: text_step_eq)
  moreover have "\<exists>t'. efold (text_step env G n) ps (t @ ''<br></br>'' @ q @ '': '' @ fmt env v) = Inr t'"
    by (rule Cons.IH) (use Cons.prems in simp)
  ultimately show ?case by simp
qed

lemma text_loop_error:
  assumes "\<forall>q\<in>set qs. has_attr G q n" and "\<not> has_attr G p n"
  shows "efold (text_step env G n) (qs @ p # rs) t = Inl (KeyError p)"
proof -
  from text_loop_succeeds [OF assms(1)] obtain t' where
    "efold (text_step env G n) qs t = Inr t'" by blast
  moreover from assms(2) have "text_step env G n p t' = Inl (KeyError p)"
    by (simp add: text_step_eq has_attr_def)
  ultimately show ?thesis by (rule efold_stops)
qed

lemma text_loop_Inr:
  assumes "efold (text_step env G n) ps t = Inr t'" and "q \<in> set ps"
  shows "has_attr G q n"
proof -
  from efold_steps [OF assms] obtain s s' where "text_step env G n q s = Inr s'" by blast
  then show ?thesis by (auto simp: text_step_eq has_attr_def split: option.splits)
qed


subsection \<open>The size block\<close>


lemma size_step_Inr:
  assumes "size_step env G sm n sizes = Inr sizes'"
  shows "size_ok G sm n"
  using assms
  by (cases sm)
     (auto simp: size_ok_def size_step_def attr_lookup_def has_attr_def ebind_eq_Inr
           split: if_splits option.splits)

subsection \<open>One node\<close>

lemma node_step_positioned:
  assumes "node_position G n = Some xy"
  shows "node_step env G sm cm ntext n nt =
     ebind (if ntext \<noteq> []
            then efold (text_step env G n) ntext
                   (''Node: '' @ node_str env n @ ''<br>Degree: '' @ fmt env (VInt (degree G n)))
            else Inr (''Node: '' @ node_str env n @ ''<br>Degree: '' @ fmt env (VInt (degree G n))))
       (\<lambda>text1.
      ebind (size_step env G sm n (marker_size nt)) (\<lambda>sizes.
      ebind (color_step env G cm n (marker_color nt)) (\<lambda>colors.
        Inr (nt\<lparr>tr_x := tr_x nt @ [fst xy],
                 tr_y := tr_y nt @ [snd xy],
                 tr_text := tr_text nt @ [strip env text1],
                 marker_size := sizes,
                 marker_color := colors\<rparr>))))"
proof -
  from assms obtain p where "attr_lookup G n ''pos'' = Inr p" "unpack2 p = Inr xy"
    by (auto simp: node_position_Some)
  then show ?thesis by (simp add: node_step_def Let_def)
qed

lemma node_step_text_error:
  assumes "node_position G n = Some xy" and "ntext = qs @ p # rs"
    and "\<forall>q\<in>set qs. has_attr G q n" and "\<not> has_attr G p n"
  shows "node_step env G sm cm ntext n nt = Inl (KeyError p)"
  using text_loop_error [OF assms(3,4)] assms(2)
  by (simp add: node_step_positioned [OF assms(1)])


lemma node_step_needs:
  assumes "node_step env G sm cm ntext n nt = Inr nt'"
  shows "(\<forall>q\<in>set ntext. has_attr G q n) \<and> size_ok G sm n"
proof -
  from assms obtain t where
    t: "(if ntext \<noteq> []
         then efold (text_step env G n) ntext
                (''Node: '' @ node_str env n @ ''<br>Degree: '' @ fmt env (VInt (degree G n)))
         else Inr (''Node: '' @ node_str env n @ ''<br>Degree: '' @ fmt env (VInt (degree G n)))) = Inr t"
    unfolding node_step_def Let_def ebind_eq_Inr by blast
  have "\<forall>q\<in>set ntext. has_attr G q n"
  proof (cases "ntext = []")
    case True
    then show ?thesis by simp
  next
    case False
    with t have "efold (text_step env G n) ntext
                (''Node: '' @ node_str env n @ ''<br>Degree: '' @ fmt env (VInt (degree G n))) = Inr t"
      by simp
    from text_loop_Inr [OF this] show ?thesis by blast
  qed
  moreover have "size_ok G sm n"
    by (rule size_step_Inr [OF node_step_sizes [OF assms]])
  ultimately show ?thesis by simp
qed


subsection \<open>One edge and one arrow\<close>





subsection \<open>The whole call\<close>

lemma plot_needs:
  assumes "layout_step env G (layout opt) = Inr G'" and "\<not> isl (plot env G opt)"
    and "n \<in> set (nodes G')"
  shows "(\<forall>q\<in>set (node_text opt). has_attr G' q n) \<and> size_ok G' (size_method opt) n"
proof -
  from assms(2) obtain fig G'' where p: "plot env G opt = Inr (fig, G'')"
    by (cases "plot env G opt") auto
  from plot_node_loop [OF p] assms(1) have
    "efold (node_step env G' (size_method opt) (color_method opt) (node_text opt))
           (nodes G') empty_scatter = Inr (fig_node_trace fig)" by simp
  from efold_steps [OF this assms(3)] obtain t t' where
    "node_step env G' (size_method opt) (color_method opt) (node_text opt) n t = Inr t'" by blast
  from node_step_needs [OF this] show ?thesis .
qed

lemma plot_stops_at_node:
  assumes "layout_step env G (layout opt) = Inr G'" and "reaches env G' opt pre"
    and "nodes G' = pre @ n # post"
    and "\<And>t. node_step env G' (size_method opt) (color_method opt) (node_text opt) n t = Inl e"
  shows "plot env G opt = Inl e"
proof -
  from assms(2) have v: "valid_traces env (colorscale opt) (colorbar_title opt)"
    by (simp add: reaches_def)
  from assms(2) obtain st where
    el: "efold (edge_step G' (show_edgetext opt)) (edges G')
           \<lparr>st_edge_trace = empty_scatter, st_middle_node_trace = empty_scatter,
            st_edge_properties = []\<rparr> = Inr st"
    by (cases "efold (edge_step G' (show_edgetext opt)) (edges G')
           \<lparr>st_edge_trace = empty_scatter, st_middle_node_trace = empty_scatter,
            st_edge_properties = []\<rparr>") (simp_all add: reaches_def)
  from assms(2) obtain t where
    "efold (node_step env G' (size_method opt) (color_method opt) (node_text opt)) pre
       empty_scatter = Inr t"
    by (cases "efold (node_step env G' (size_method opt) (color_method opt) (node_text opt)) pre
       empty_scatter") (simp_all add: reaches_def)
  from efold_stops [OF this assms(4)] assms(3)
  have nl: "efold (node_step env G' (size_method opt) (color_method opt) (node_text opt))
              (nodes G') empty_scatter = Inl e" by simp
  have "generate_scatter_trace env G' (size_method opt) (color_method opt) (colorscale opt)
          (colorbar_title opt) (node_text opt) (show_edgetext opt) = Inl e"
    unfolding generate_scatter_trace_def by (simp add: v el nl)
  then show ?thesis unfolding plot_def by (simp add: assms(1))
qed




lemma takeWhile_split:
  assumes "a \<in> set xs"
  shows "\<exists>rest. xs = takeWhile (\<lambda>b. b \<noteq> a) xs @ a # rest"
  using assms by (induction xs) auto

section \<open>The pair dictionary and the hover markers\<close>

subsection \<open>First occurrences\<close>

lemma first_seen_Nil [simp]: "first_seen [] = []"
  by (simp add: first_seen_def)

lemma first_seen_snoc:
  "first_seen (xs @ [x]) = (if x \<in> set xs then first_seen xs else first_seen xs @ [x])"
  by (simp add: first_seen_def)

lemma set_first_seen [simp]: "set (first_seen xs) = set xs"
  by (simp add: first_seen_def)

lemma distinct_first_seen [simp]: "distinct (first_seen xs)"
  by (simp add: first_seen_def)

lemma length_first_seen: "length (first_seen xs) = card (set xs)"
  using distinct_card [OF distinct_first_seen, of xs] by simp

subsection \<open>Updating an association list that is given by its keys\<close>

lemma map_of_keys:
  "map_of (map (\<lambda>q. (q, f q)) ks) k = (if k \<in> set ks then Some (f k) else None)"
  by (induction ks) auto

lemma update_keys_notin:
  "k \<notin> set ks \<Longrightarrow> AList.update k v (map (\<lambda>q. (q, f q)) ks) = map (\<lambda>q. (q, f q)) ks @ [(k, v)]"
  by (induction ks) auto

lemma update_keys_in:
  "distinct ks \<Longrightarrow> k \<in> set ks \<Longrightarrow>
   AList.update k v (map (\<lambda>q. (q, f q)) ks) = map (\<lambda>q. (q, if q = k then v else f q)) ks"
proof (induction ks)
  case Nil
  then show ?case by simp
next
  case (Cons a ks)
  show ?case
  proof (cases "a = k")
    case True
    with Cons.prems have "k \<notin> set ks" by simp
    then have "map (\<lambda>q. (q, f q)) ks = map (\<lambda>q. (q, if q = k then v else f q)) ks"
      by (intro map_cong) auto
    with True show ?thesis by simp
  next
    case False
    with Cons show ?thesis by simp
  qed
qed

subsection \<open>Aggregating the attributes of the edges of one pair\<close>

lemma aggregate_Nil [simp]: "aggregate [] = []"
  by (simp add: aggregate_def)

lemma values_of_snoc:
  "values_of (items @ [(k, v)]) k' = values_of items k' @ (if k' = k then [v] else [])"
  by (simp add: values_of_def)

lemma values_of_absent: "k \<notin> fst ` set items \<Longrightarrow> values_of items k = []"
  by (auto simp: values_of_def filter_empty_conv)

lemma add_property_aggregate:
  "add_property (aggregate items) (k, v) = aggregate (items @ [(k, v)])"
proof (cases "k \<in> fst ` set items")
  case True
  then have m: "map_of (aggregate items) k = Some (values_of items k)"
    by (simp add: aggregate_def map_of_keys)
  have "add_property (aggregate items) (k, v) =
          AList.update k (values_of items k @ [v]) (aggregate items)"
    by (simp add: add_property_def m)
  also have "\<dots> = map (\<lambda>q. (q, if q = k then values_of items k @ [v] else values_of items q))
                      (first_seen (map fst items))"
    unfolding aggregate_def using True by (simp add: update_keys_in)
  also have "\<dots> = map (\<lambda>q. (q, values_of (items @ [(k, v)]) q)) (first_seen (map fst items))"
    by (intro map_cong) (auto simp: values_of_snoc)
  also have "\<dots> = aggregate (items @ [(k, v)])"
    using True by (simp add: aggregate_def first_seen_snoc)
  finally show ?thesis .
next
  case False
  then have m: "map_of (aggregate items) k = None"
    by (simp add: aggregate_def map_of_keys)
  have "add_property (aggregate items) (k, v) = AList.update k [v] (aggregate items)"
    by (simp add: add_property_def m update_conv')
  also have "\<dots> = aggregate items @ [(k, [v])]"
    unfolding aggregate_def using False by (simp add: update_keys_notin)
  also have "\<dots> = map (\<lambda>q. (q, values_of (items @ [(k, v)]) q)) (first_seen (map fst items)) @
                      [(k, values_of (items @ [(k, v)]) k)]"
  proof -
    have "map (\<lambda>q. (q, values_of items q)) (first_seen (map fst items)) =
          map (\<lambda>q. (q, values_of (items @ [(k, v)]) q)) (first_seen (map fst items))"
      using False by (intro map_cong) (auto simp: values_of_snoc)
    moreover have "values_of (items @ [(k, v)]) k = [v]"
      using False by (simp add: values_of_snoc values_of_absent)
    ultimately show ?thesis by (simp add: aggregate_def)
  qed
  also have "\<dots> = aggregate (items @ [(k, v)])"
    using False by (simp add: aggregate_def first_seen_snoc)
  finally show ?thesis .
qed

lemma foldl_add_property:
  "foldl add_property (aggregate items) d = aggregate (items @ d)"
proof (induction d arbitrary: items)
  case Nil
  then show ?case by simp
next
  case (Cons kv d)
  have "add_property (aggregate items) kv = aggregate (items @ [kv])"
    using add_property_aggregate [of items "fst kv" "snd kv"] by simp
  with Cons [of "items @ [kv]"] show ?case by simp
qed

subsection \<open>The pair dictionary after one more edge\<close>

lemma pair_items_snoc:
  "pair_items (es @ [e]) q = pair_items es q @ (if edge_pair e = q then snd (snd e) else [])"
  by (simp add: pair_items_def)

lemma pair_items_absent: "q \<notin> edge_pair ` set es \<Longrightarrow> pair_items es q = []"
  by (auto simp: pair_items_def filter_empty_conv)

lemma map_of_hover_entries:
  "map_of (hover_entries es) q =
     (if q \<in> edge_pair ` set es then Some (aggregate (pair_items es q)) else None)"
  by (simp add: hover_entries_def map_of_keys)

lemma hover_entries_snoc:
  "hover_entries (es @ [e]) =
     AList.update (edge_pair e)
       (foldl add_property
          (case map_of (hover_entries es) (edge_pair e) of None \<Rightarrow> [] | Some ps \<Rightarrow> ps)
          (snd (snd e)))
       (hover_entries es)"
proof (cases "edge_pair e \<in> edge_pair ` set es")
  case True
  have "hover_entries (es @ [e]) =
          map (\<lambda>q. (q, aggregate (pair_items (es @ [e]) q))) (first_seen (map edge_pair es))"
    using True by (simp add: hover_entries_def first_seen_snoc)
  also have "\<dots> = map (\<lambda>q. (q, if q = edge_pair e
                                  then aggregate (pair_items es (edge_pair e) @ snd (snd e))
                                  else aggregate (pair_items es q)))
                      (first_seen (map edge_pair es))"
    by (intro map_cong) (auto simp: pair_items_snoc)
  also have "\<dots> = AList.update (edge_pair e)
                      (aggregate (pair_items es (edge_pair e) @ snd (snd e))) (hover_entries es)"
    unfolding hover_entries_def using True by (simp add: update_keys_in)
  finally show ?thesis
    using True by (simp add: map_of_hover_entries foldl_add_property)
next
  case False
  have "hover_entries (es @ [e]) =
          map (\<lambda>q. (q, aggregate (pair_items (es @ [e]) q))) (first_seen (map edge_pair es)) @
          [(edge_pair e, aggregate (pair_items (es @ [e]) (edge_pair e)))]"
    using False by (simp add: hover_entries_def first_seen_snoc)
  also have "map (\<lambda>q. (q, aggregate (pair_items (es @ [e]) q))) (first_seen (map edge_pair es)) =
             hover_entries es"
    unfolding hover_entries_def using False by (intro map_cong) (auto simp: pair_items_snoc)
  also have "pair_items (es @ [e]) (edge_pair e) = snd (snd e)"
    using False by (simp add: pair_items_snoc pair_items_absent)
  also have "hover_entries es @ [(edge_pair e, aggregate (snd (snd e)))] =
             AList.update (edge_pair e) (aggregate (snd (snd e))) (hover_entries es)"
    unfolding hover_entries_def using False by (simp add: update_keys_notin)
  finally show ?thesis
    using False foldl_add_property [of "[]" "snd (snd e)"] by (simp add: map_of_hover_entries)
qed

subsection \<open>The edge loop keeps the pair dictionary and the markers in step\<close>

lemma hover_ok_step:
  assumes "edge_step G True e st = Inr st'" and "hover_ok G es st"
  shows "hover_ok G (es @ [e]) st'"
proof -
  from edge_step_Inr [OF assms(1)] obtain p0 p1 x0 y0 x1 y1 st1 where
    q0: "attr_lookup G (fst e) ''pos'' = Inr p0" "unpack2 p0 = Inr (x0, y0)" and
    q1: "attr_lookup G (fst (snd e)) ''pos'' = Inr p1" "unpack2 p1 = Inr (x1, y1)" and
    st1: "st1 = st\<lparr>st_edge_trace :=
                        (st_edge_trace st)\<lparr>tr_x := tr_x (st_edge_trace st) @ [x0, x1, VNone],
                                         tr_y := tr_y (st_edge_trace st) @ [y0, y1, VNone]\<rparr>\<rparr>"
    and h: "hover_step (edge_pair e) x0 y0 x1 y1 (snd (snd e)) st1 = Inr st'"
    by (auto simp: Let_def)
  have pr: "st_edge_properties st1 = hover_entries es"
    and md: "st_middle_node_trace st1 = st_middle_node_trace st"
    using st1 assms(2) by (simp_all add: hover_ok_def)
  from q0 have n0: "node_position G (fst e) = Some (x0, y0)" by (auto simp: node_position_Some)
  from q1 have n1: "node_position G (fst (snd e)) = Some (x1, y1)" by (auto simp: node_position_Some)
  from assms(2) have len: "length (tr_x (st_middle_node_trace st)) = length (tr_y (st_middle_node_trace st))"
    and mk: "map Some (zip (tr_x (st_middle_node_trace st)) (tr_y (st_middle_node_trace st))) =
       map (pair_midpoint G) (first_seen (map edge_pair es))"
    by (simp_all add: hover_ok_def)
  show ?thesis
  proof (cases "edge_pair e \<in> edge_pair ` set es")
    case False
    then have none: "map_of (st_edge_properties st1) (edge_pair e) = None"
      by (simp add: pr map_of_hover_entries)
    from hover_step_Inr [OF h] none obtain mx my where
      m: "midpoint x0 x1 = Inr mx" "midpoint y0 y1 = Inr my" and
      p': "st_edge_properties st' =
             AList.update (edge_pair e) (foldl add_property [] (snd (snd e))) (st_edge_properties st1)" and
      m': "st_middle_node_trace st' =
             (st_middle_node_trace st1)\<lparr>tr_x := tr_x (st_middle_node_trace st1) @ [mx],
                                         tr_y := tr_y (st_middle_node_trace st1) @ [my]\<rparr>"
      by auto
    have pm: "pair_midpoint G (edge_pair e) = Some (mx, my)"
      using n0 n1 m by (simp add: pair_midpoint_def edge_pair_def)
    have e1: "st_edge_properties st' = hover_entries (es @ [e])"
      using p' pr False by (simp add: hover_entries_snoc map_of_hover_entries)
    have e2: "map Some (zip (tr_x (st_middle_node_trace st')) (tr_y (st_middle_node_trace st'))) =
                map (pair_midpoint G) (first_seen (map edge_pair (es @ [e])))"
      using m' md len mk pm False by (simp add: first_seen_snoc)
    from e1 e2 m' md len show ?thesis by (simp add: hover_ok_def)
  next
    case True
    then have some: "map_of (st_edge_properties st1) (edge_pair e) =
                       Some (aggregate (pair_items es (edge_pair e)))"
      by (simp add: pr map_of_hover_entries)
    from hover_step_Inr [OF h] some have
      p': "st_edge_properties st' =
             AList.update (edge_pair e)
               (foldl add_property (aggregate (pair_items es (edge_pair e))) (snd (snd e)))
               (st_edge_properties st1)" and
      m': "st_middle_node_trace st' = st_middle_node_trace st1"
      by auto
    have e1: "st_edge_properties st' = hover_entries (es @ [e])"
      using p' pr True by (simp add: hover_entries_snoc map_of_hover_entries)
    have e2: "map Some (zip (tr_x (st_middle_node_trace st')) (tr_y (st_middle_node_trace st'))) =
                map (pair_midpoint G) (first_seen (map edge_pair (es @ [e])))"
      using m' md mk True by (simp add: first_seen_snoc)
    from e1 e2 m' md len show ?thesis by (simp add: hover_ok_def)
  qed
qed

lemma hover_ok_loop:
  assumes "efold (edge_step G True) es' st = Inr st'" and "hover_ok G es st"
  shows "hover_ok G (es @ es') st'"
  using assms
proof (induction es' arbitrary: es st)
  case Nil
  then show ?case by simp
next
  case (Cons e es')
  from Cons.prems(1) obtain t where t: "edge_step G True e st = Inr t"
    and r: "efold (edge_step G True) es' t = Inr st'"
    by (auto split: sum.splits)
  from hover_ok_step [OF t Cons.prems(2)] have "hover_ok G (es @ [e]) t" .
  from Cons.IH [OF r this] show ?case by simp
qed

lemma hover_ok_init:
  "hover_ok G [] \<lparr>st_edge_trace = empty_scatter, st_middle_node_trace = empty_scatter,
                  st_edge_properties = []\<rparr>"
  by (simp add: hover_ok_def hover_entries_def empty_scatter_def)

lemma card_pairs_one_orientation:
  assumes "\<forall>e\<in>set es. \<forall>e'\<in>set es. unordered_pair e = unordered_pair e' \<longrightarrow> edge_pair e = edge_pair e'"
  shows "card (edge_pair ` set es) = card (unordered_pair ` set es)"
proof -
  have u: "unordered_pair e = (\<lambda>p. {fst p, snd p}) (edge_pair e)" for e :: "'a \<times> 'a \<times> eattrs"
    by (simp add: unordered_pair_def edge_pair_def)
  have "inj_on (\<lambda>p. {fst p, snd p}) (edge_pair ` set es)"
  proof (rule inj_onI)
    fix p q
    assume "p \<in> edge_pair ` set es" "q \<in> edge_pair ` set es" "{fst p, snd p} = {fst q, snd q}"
    then obtain e e' where "e \<in> set es" "e' \<in> set es" "p = edge_pair e" "q = edge_pair e'"
      "unordered_pair e = unordered_pair e'" using u by auto
    with assms show "p = q" by blast
  qed
  from card_image [OF this] have "card ((\<lambda>p. {fst p, snd p}) ` edge_pair ` set es) = card (edge_pair ` set es)" .
  moreover have "(\<lambda>p. {fst p, snd p}) ` edge_pair ` set es = unordered_pair ` set es"
    using u by (auto simp: image_image)
  ultimately show ?thesis by simp
qed

section \<open>Evaluating the model on concrete inputs\<close>

lemmas plot_eval = plot_def layout_step_def truthy_def apply_layout_def layout_functions_def
  get_node_attributes_def set_node_attributes_def generate_scatter_trace_def node_step_def
  edge_step_def hover_step_def add_property_def text_step_def size_step_def color_step_def
  edge_text_def generate_figure_def arrow_step_def attr_lookup_def unpack2_def subscript_def
  ascii_strip_def is_space_def empty_scatter_def default_opts_def
  assign_size_def assign_color_def to_float_def float_limit_def demo_valid_size_def
  demo_valid_color_def demo_colorscales_def
  fig_node_trace_def fig_edge_trace_def fig_hover_trace_def List.map_filter_def pos_val_def
  Let_def demo_env_def show_val_def int_str_def nat_str.simps digit_char_def row_layout_def

lemma Inr_projr: "\<not> isl r \<Longrightarrow> r = Inr (fst (projr r), snd (projr r))"
  by (cases r) simp_all

section \<open>C1: lengths of the trace sequences\<close>

text \<open>
  C1. For a graph with N nodes and E edges, after a successful \<^verbatim>\<open>plot\<close> the
  sequences \<open>x\<close>, \<open>y\<close> and \<open>text\<close> of the node trace have length N; the marker sizes
  (marker colours) have length N when the size method (colour method) is a string or
  a literal list of length N; the sequences \<open>x\<close> and \<open>y\<close> of the edge trace have length
  3E; and with edge hover text enabled the sequences \<open>x\<close>, \<open>y\<close> and \<open>text\<close> of the
  edge-hover trace have as many entries as there are distinct node pairs
  \<^verbatim>\<open>(edge[0], edge[1])\<close> among the edges.
\<close>

theorem trace_lengths:
  assumes "plot env G opt = Inr (fig, G')"
  shows "length (tr_x (fig_node_trace fig)) = length (nodes G) \<and>
         length (tr_y (fig_node_trace fig)) = length (nodes G) \<and>
         length (tr_text (fig_node_trace fig)) = length (nodes G) \<and>
         ((\<forall>l. size_method opt = MList l \<longrightarrow> length l = length (nodes G)) \<longrightarrow>
            length (marker_size (fig_node_trace fig)) = length (nodes G)) \<and>
         ((\<forall>l. color_method opt = MList l \<longrightarrow> length l = length (nodes G)) \<longrightarrow>
            length (marker_color (fig_node_trace fig)) = length (nodes G)) \<and>
         length (tr_x (fig_edge_trace fig)) = 3 * length (edges G) \<and>
         length (tr_y (fig_edge_trace fig)) = 3 * length (edges G) \<and>
         (show_edgetext opt \<longrightarrow>
            length (tr_x (fig_hover_trace fig)) = card (edge_pair ` set (edges G)) \<and>
            length (tr_y (fig_hover_trace fig)) = card (edge_pair ` set (edges G)) \<and>
            length (tr_text (fig_hover_trace fig)) = card (edge_pair ` set (edges G)))"
proof -
  from plot_traces [OF assms] have l: "layout_step env G (layout opt) = Inr G'"
    and g: "generate_scatter_trace env G' (size_method opt) (color_method opt) (colorscale opt)
             (colorbar_title opt) (node_text opt) (show_edgetext opt) =
              Inr (fig_node_trace fig, fig_edge_trace fig, fig_hover_trace fig)"
    by simp_all
  from layout_step_frame [OF l] have n: "nodes G' = nodes G" and e: "edges G' = edges G"
    by simp_all
  from generate_scatter_trace_Inr [OF g] obtain st where
    el: "efold (edge_step G' (show_edgetext opt)) (edges G')
           \<lparr>st_edge_trace = empty_scatter, st_middle_node_trace = empty_scatter,
            st_edge_properties = []\<rparr> = Inr st"
    and nl: "efold (node_step env G' (size_method opt) (color_method opt) (node_text opt))
               (nodes G') empty_scatter = Inr (fig_node_trace fig)"
    and et: "fig_edge_trace fig = st_edge_trace st"
    and mt: "fig_hover_trace fig =
               (if show_edgetext opt
                then (st_middle_node_trace st)
                       \<lparr>tr_text := map (\<lambda>pv. edge_text env (snd pv)) (st_edge_properties st)\<rparr>
                else st_middle_node_trace st)"
    by blast
  have xyz: "length (tr_x (fig_node_trace fig)) = length (nodes G) \<and>
         length (tr_y (fig_node_trace fig)) = length (nodes G) \<and>
         length (tr_text (fig_node_trace fig)) = length (nodes G)"
    using node_loop_lengths [OF nl] n by (simp add: empty_scatter_def)
  have sz: "length (marker_size (fig_node_trace fig)) = length (nodes G)"
    if h: "\<forall>l. size_method opt = MList l \<longrightarrow> length l = length (nodes G)"
  proof (cases "size_method opt")
    case (MStr s)
    with nl node_loop_sizes_MStr [of env G' s _ _ "nodes G'" empty_scatter "fig_node_trace fig"] n
    show ?thesis by (simp add: empty_scatter_def)
  next
    case (MList l)
    with nl node_loop_sizes_MList [of env G' l _ _ "nodes G'" empty_scatter "fig_node_trace fig"] n h
    show ?thesis by (auto simp: empty_scatter_def)
  qed
  have cl: "length (marker_color (fig_node_trace fig)) = length (nodes G)"
    if h: "\<forall>l. color_method opt = MList l \<longrightarrow> length l = length (nodes G)"
  proof (cases "color_method opt")
    case (MStr s)
    show ?thesis
    proof (cases "s = ''degree''")
      case True
      with nl MStr
        node_loop_colors_degree [of env G' _ _ "nodes G'" empty_scatter "fig_node_trace fig"] n
      show ?thesis by (simp add: empty_scatter_def)
    next
      case False
      with nl MStr
        node_loop_colors_attr [of env G' _ s _ "nodes G'" empty_scatter "fig_node_trace fig"] n
      show ?thesis by (simp add: empty_scatter_def)
    qed
  next
    case (MList l)
    with nl node_loop_colors_MList [of env G' _ l _ "nodes G'" empty_scatter "fig_node_trace fig"]
      n h
    show ?thesis by (auto simp: empty_scatter_def)
  qed
  have ed: "length (tr_x (fig_edge_trace fig)) = 3 * length (edges G) \<and>
         length (tr_y (fig_edge_trace fig)) = 3 * length (edges G)"
    using edge_loop_trace [OF el] e et by (simp add: empty_scatter_def)
  have hv: "length (tr_x (fig_hover_trace fig)) = card (edge_pair ` set (edges G)) \<and>
            length (tr_y (fig_hover_trace fig)) = card (edge_pair ` set (edges G)) \<and>
            length (tr_text (fig_hover_trace fig)) = card (edge_pair ` set (edges G))"
    if sh: "show_edgetext opt"
  proof -
    from el sh have "efold (edge_step G' True) (edges G)
           \<lparr>st_edge_trace = empty_scatter, st_middle_node_trace = empty_scatter,
            st_edge_properties = []\<rparr> = Inr st" using e by simp
    from edge_loop_hover_count [OF this] mt sh show ?thesis by simp
  qed
  from xyz sz cl ed hv show ?thesis by blast
qed

text \<open>
  C1 as stated, for every call, fails: a literal size list is assigned as given at each
  node, so with two nodes and a list of one size the marker sizes have length 1.
\<close>

theorem trace_lengths_literal_list_counterexample:
  "\<not> isl (plot demo_env pair_graph short_sizes) \<and>
   length (marker_size (fig_node_trace (fst (projr (plot demo_env pair_graph short_sizes))))) = 1 \<and>
   length (nodes pair_graph) = 2"
  by (simp add: plot_eval pair_graph_def short_sizes_def)

text \<open>
  C1 on the two-node multigraph with literal lists of the right length and edge hover
  text: every hypothesis of the theorem holds there.
\<close>

theorem trace_lengths_witness:
  "plot demo_env pair_graph listed_hover =
     Inr (fst (projr (plot demo_env pair_graph listed_hover)),
          snd (projr (plot demo_env pair_graph listed_hover))) \<and>
   size_method listed_hover = MList [VInt 5, VInt 6] \<and>
   color_method listed_hover = MList [VInt 1, VInt 2] \<and>
   show_edgetext listed_hover \<and>
   length (nodes pair_graph) = 2 \<and> length (edges pair_graph) = 2 \<and>
   card (edge_pair ` set (edges pair_graph)) = 1 \<and>
   length (marker_size (fig_node_trace (fst (projr (plot demo_env pair_graph listed_hover))))) = 2 \<and>
   length (marker_color (fig_node_trace (fst (projr (plot demo_env pair_graph listed_hover))))) = 2 \<and>
   length (tr_x (fig_edge_trace (fst (projr (plot demo_env pair_graph listed_hover))))) = 6 \<and>
   length (tr_text (fig_hover_trace (fst (projr (plot demo_env pair_graph listed_hover))))) = 1"
proof -
  have ok: "\<not> isl (plot demo_env pair_graph listed_hover)"
    by (simp add: plot_eval pair_graph_def listed_hover_def)
  have h: "plot demo_env pair_graph listed_hover =
     Inr (fst (projr (plot demo_env pair_graph listed_hover)),
          snd (projr (plot demo_env pair_graph listed_hover)))"
    by (rule Inr_projr [OF ok])
  have o: "size_method listed_hover = MList [VInt 5, VInt 6]"
    "color_method listed_hover = MList [VInt 1, VInt 2]" "show_edgetext listed_hover"
    by (simp_all add: listed_hover_def default_opts_def)
  have g: "length (nodes pair_graph) = 2" "length (edges pair_graph) = 2"
    "card (edge_pair ` set (edges pair_graph)) = 1"
    by (simp_all add: pair_graph_def edge_pair_def)
  from trace_lengths [OF h] o g show ?thesis using h by simp
qed

section \<open>C2: hover markers and aggregated hover text\<close>

text \<open>
  C2. When edge hover text is requested, the edge-hover trace has exactly one marker for
  each distinct node pair \<^verbatim>\<open>(edge[0], edge[1])\<close> among the edges, in the order
  the pairs are first seen and whatever the number of parallel edges of the pair. The
  marker lies at the midpoint of the positions of the two nodes, and its text has one line
  per attribute name, in the order the names are first seen on the edges of the pair,
  listing all values of that name on those edges in edge order. If the edge iteration
  reports all edges between two nodes in one orientation, this is one marker per
  unordered node pair.
\<close>

theorem hover_markers_and_text:
  assumes "plot env G opt = Inr (fig, G')" and "show_edgetext opt"
  shows "distinct (first_seen (map edge_pair (edges G))) \<and>
         set (first_seen (map edge_pair (edges G))) = edge_pair ` set (edges G) \<and>
         length (tr_x (fig_hover_trace fig)) = length (first_seen (map edge_pair (edges G))) \<and>
         length (tr_y (fig_hover_trace fig)) = length (first_seen (map edge_pair (edges G))) \<and>
         map Some (zip (tr_x (fig_hover_trace fig)) (tr_y (fig_hover_trace fig))) =
           map (pair_midpoint G') (first_seen (map edge_pair (edges G))) \<and>
         tr_text (fig_hover_trace fig) =
           map (\<lambda>p. edge_text env (aggregate (pair_items (edges G) p)))
             (first_seen (map edge_pair (edges G))) \<and>
         ((\<forall>e\<in>set (edges G). \<forall>e'\<in>set (edges G).
             unordered_pair e = unordered_pair e' \<longrightarrow> edge_pair e = edge_pair e') \<longrightarrow>
            length (tr_x (fig_hover_trace fig)) = card (unordered_pair ` set (edges G)))"
proof -
  from plot_node_loop [OF assms(1)] have l: "layout_step env G (layout opt) = Inr G'" by simp
  from layout_step_frame [OF l] have e: "edges G' = edges G" by simp
  from plot_edge_loop [OF assms(1)] assms(2) obtain st where
    el: "efold (edge_step G' True) (edges G')
           \<lparr>st_edge_trace = empty_scatter, st_middle_node_trace = empty_scatter,
            st_edge_properties = []\<rparr> = Inr st"
    and ht: "fig_hover_trace fig =
               (st_middle_node_trace st)
                 \<lparr>tr_text := map (\<lambda>pv. edge_text env (snd pv)) (st_edge_properties st)\<rparr>"
    by auto
  from hover_ok_loop [OF el hover_ok_init] e have ok: "hover_ok G' (edges G) st" by simp
  then have pr: "st_edge_properties st = hover_entries (edges G)"
    and len: "length (tr_x (st_middle_node_trace st)) = length (tr_y (st_middle_node_trace st))"
    and mk: "map Some (zip (tr_x (st_middle_node_trace st)) (tr_y (st_middle_node_trace st))) =
       map (pair_midpoint G') (first_seen (map edge_pair (edges G)))"
    by (simp_all add: hover_ok_def)
  from mk have "length (zip (tr_x (st_middle_node_trace st)) (tr_y (st_middle_node_trace st))) =
                  length (first_seen (map edge_pair (edges G)))"
    by (metis length_map)
  with len have lx: "length (tr_x (st_middle_node_trace st)) = length (first_seen (map edge_pair (edges G)))"
    and ly: "length (tr_y (st_middle_node_trace st)) = length (first_seen (map edge_pair (edges G)))"
    by simp_all
  have tx: "tr_text (fig_hover_trace fig) =
           map (\<lambda>p. edge_text env (aggregate (pair_items (edges G) p)))
             (first_seen (map edge_pair (edges G)))"
    using ht pr by (simp add: hover_entries_def comp_def)
  have a1: "distinct (first_seen (map edge_pair (edges G)))" by simp
  have a2: "set (first_seen (map edge_pair (edges G))) = edge_pair ` set (edges G)" by simp
  have a3: "length (tr_x (fig_hover_trace fig)) = length (first_seen (map edge_pair (edges G)))"
    using lx by (simp add: ht)
  have a4: "length (tr_y (fig_hover_trace fig)) = length (first_seen (map edge_pair (edges G)))"
    using ly by (simp add: ht)
  have a5: "map Some (zip (tr_x (fig_hover_trace fig)) (tr_y (fig_hover_trace fig))) =
           map (pair_midpoint G') (first_seen (map edge_pair (edges G)))"
    using mk by (simp add: ht)
  have a7: "(\<forall>e\<in>set (edges G). \<forall>e'\<in>set (edges G).
             unordered_pair e = unordered_pair e' \<longrightarrow> edge_pair e = edge_pair e') \<longrightarrow>
            length (tr_x (fig_hover_trace fig)) = card (unordered_pair ` set (edges G))"
  proof
    assume "\<forall>e\<in>set (edges G). \<forall>e'\<in>set (edges G).
             unordered_pair e = unordered_pair e' \<longrightarrow> edge_pair e = edge_pair e'"
    from card_pairs_one_orientation [OF this] a3
    show "length (tr_x (fig_hover_trace fig)) = card (unordered_pair ` set (edges G))"
      by (simp add: length_first_seen)
  qed
  show ?thesis by (intro conjI a1 a2 a3 a4 a5 tx a7)
qed

text \<open>
  C2 as stated, for unordered pairs, fails on a directed graph: the edges a to b and b to
  a join the same two nodes and get a marker each.
\<close>

theorem hover_unordered_pair_counterexample:
  "directed two_way \<and> show_edgetext hover_opts \<and>
   \<not> isl (plot demo_env two_way hover_opts) \<and>
   unordered_pair (edges two_way ! 0) = unordered_pair (edges two_way ! 1) \<and>
   length (tr_x (fig_hover_trace (fst (projr (plot demo_env two_way hover_opts))))) = 2 \<and>
   length (tr_text (fig_hover_trace (fst (projr (plot demo_env two_way hover_opts))))) = 2"
proof -
  have d: "directed two_way" by (simp add: two_way_def)
  have sh: "show_edgetext hover_opts" by (simp add: hover_opts_def default_opts_def)
  have ok: "\<not> isl (plot demo_env two_way hover_opts)"
    by (simp add: plot_eval two_way_def hover_opts_def)
  have u: "unordered_pair (edges two_way ! 0) = unordered_pair (edges two_way ! 1)"
    by (simp add: two_way_def unordered_pair_def insert_commute)
  have lx: "length (tr_x (fig_hover_trace (fst (projr (plot demo_env two_way hover_opts))))) = 2"
    by (simp add: plot_eval two_way_def hover_opts_def)
  have lt: "length (tr_text (fig_hover_trace (fst (projr (plot demo_env two_way hover_opts))))) = 2"
    by (simp add: plot_eval two_way_def hover_opts_def)
  show ?thesis by (intro conjI d sh ok u lx lt)
qed

text \<open>
  C2 on two nodes joined by two parallel edges with weights 1 and 2: one marker, at the
  midpoint, with the text \<open>weight: [1, 2]\<close>.
\<close>

theorem hover_markers_and_text_witness:
  "plot demo_env pair_graph hover_opts =
     Inr (fst (projr (plot demo_env pair_graph hover_opts)),
          snd (projr (plot demo_env pair_graph hover_opts))) \<and>
   show_edgetext hover_opts \<and>
   edges pair_graph = [(''a'', ''b'', [(''weight'', VInt 1)]), (''a'', ''b'', [(''weight'', VInt 2)])] \<and>
   first_seen (map edge_pair (edges pair_graph)) = [(''a'', ''b'')] \<and>
   aggregate (pair_items (edges pair_graph) (''a'', ''b'')) = [(''weight'', [VInt 1, VInt 2])] \<and>
   pair_midpoint pair_graph (''a'', ''b'') = Some (VFloat 1, VFloat 2) \<and>
   tr_x (fig_hover_trace (fst (projr (plot demo_env pair_graph hover_opts)))) = [VFloat 1] \<and>
   tr_y (fig_hover_trace (fst (projr (plot demo_env pair_graph hover_opts)))) = [VFloat 2] \<and>
   tr_text (fig_hover_trace (fst (projr (plot demo_env pair_graph hover_opts)))) =
     [''weight: [1, 2]''] \<and>
   card (unordered_pair ` set (edges pair_graph)) = 1"
proof -
  have ok: "\<not> isl (plot demo_env pair_graph hover_opts)"
    by (simp add: plot_eval pair_graph_def hover_opts_def)
  have h: "plot demo_env pair_graph hover_opts =
     Inr (fst (projr (plot demo_env pair_graph hover_opts)),
          snd (projr (plot demo_env pair_graph hover_opts)))"
    by (rule Inr_projr [OF ok])
  have sh: "show_edgetext hover_opts" by (simp add: hover_opts_def default_opts_def)
  have es: "edges pair_graph =
              [(''a'', ''b'', [(''weight'', VInt 1)]), (''a'', ''b'', [(''weight'', VInt 2)])]"
    by (simp add: pair_graph_def)
  have g: "snd (projr (plot demo_env pair_graph hover_opts)) = pair_graph"
    by (simp add: plot_eval pair_graph_def hover_opts_def)
  have fs: "first_seen (map edge_pair (edges pair_graph)) = [(''a'', ''b'')]"
    by (simp add: es first_seen_def edge_pair_def)
  have ag: "aggregate (pair_items (edges pair_graph) (''a'', ''b'')) = [(''weight'', [VInt 1, VInt 2])]"
    by (simp add: es aggregate_def pair_items_def edge_pair_def first_seen_def values_of_def)
  have pm: "pair_midpoint pair_graph (''a'', ''b'') = Some (VFloat 1, VFloat 2)"
    by (simp add: pair_midpoint_def node_position_def unpack2_def to_float_def float_limit_def
          pair_graph_def)
  have one: "\<forall>e\<in>set (edges pair_graph). \<forall>e'\<in>set (edges pair_graph).
               unordered_pair e = unordered_pair e' \<longrightarrow> edge_pair e = edge_pair e'"
    by (simp add: es edge_pair_def)
  have cu: "card (unordered_pair ` set (edges pair_graph)) = 1"
    by (simp add: es unordered_pair_def)
  note t = hover_markers_and_text [OF h sh]
  note t2 = t [THEN conjunct2, THEN conjunct2]
  have lx: "length (tr_x (fig_hover_trace (fst (projr (plot demo_env pair_graph hover_opts))))) =
                     length (first_seen (map edge_pair (edges pair_graph)))"
    by (rule t2 [THEN conjunct1])
  have ly: "length (tr_y (fig_hover_trace (fst (projr (plot demo_env pair_graph hover_opts))))) =
                     length (first_seen (map edge_pair (edges pair_graph)))"
    by (rule t2 [THEN conjunct2, THEN conjunct1])
  have mk: "map Some (zip (tr_x (fig_hover_trace (fst (projr (plot demo_env pair_graph hover_opts)))))
                                 (tr_y (fig_hover_trace (fst (projr (plot demo_env pair_graph hover_opts)))))) =
                     map (pair_midpoint (snd (projr (plot demo_env pair_graph hover_opts))))
                       (first_seen (map edge_pair (edges pair_graph)))"
    by (rule t2 [THEN conjunct2, THEN conjunct2, THEN conjunct1])
  have tx: "tr_text (fig_hover_trace (fst (projr (plot demo_env pair_graph hover_opts)))) =
           map (\<lambda>p. edge_text demo_env (aggregate (pair_items (edges pair_graph) p)))
             (first_seen (map edge_pair (edges pair_graph)))"
    by (rule t2 [THEN conjunct2, THEN conjunct2, THEN conjunct2, THEN conjunct1])
  have lu: "length (tr_x (fig_hover_trace (fst (projr (plot demo_env pair_graph hover_opts))))) =
                     card (unordered_pair ` set (edges pair_graph))"
    by (rule t2 [THEN conjunct2, THEN conjunct2, THEN conjunct2, THEN conjunct2, THEN mp, OF one])
  from lx fs obtain a where xa: "tr_x (fig_hover_trace (fst (projr (plot demo_env pair_graph hover_opts)))) = [a]"
    by (cases "tr_x (fig_hover_trace (fst (projr (plot demo_env pair_graph hover_opts))))") auto
  from ly fs obtain b where yb: "tr_y (fig_hover_trace (fst (projr (plot demo_env pair_graph hover_opts)))) = [b]"
    by (cases "tr_y (fig_hover_trace (fst (projr (plot demo_env pair_graph hover_opts))))") auto
  from mk xa yb fs g pm have ab: "a = VFloat 1" "b = VFloat 2" by simp_all
  have rx: "tr_x (fig_hover_trace (fst (projr (plot demo_env pair_graph hover_opts)))) = [VFloat 1]"
    using xa ab by simp
  have ry: "tr_y (fig_hover_trace (fst (projr (plot demo_env pair_graph hover_opts)))) = [VFloat 2]"
    using yb ab by simp
  have "map (\<lambda>p. edge_text demo_env (aggregate (pair_items (edges pair_graph) p)))
             (first_seen (map edge_pair (edges pair_graph))) = [''weight: [1, 2]'']"
    by (simp add: fs ag edge_text_def demo_env_def show_val_def int_str_def nat_str.simps
          digit_char_def)
  with tx have r: "tr_text (fig_hover_trace (fst (projr (plot demo_env pair_graph hover_opts)))) =
     [''weight: [1, 2]'']" by simp
  show ?thesis by (intro conjI h sh es fs ag pm rx ry r cu)
qed

section \<open>C3: positions after the layout step\<close>

text \<open>
  C3. When the layout step completes and a layout was computed (a non-empty layout name
  was given, or no node carried a position), every node of the graph carries a
  two-dimensional position afterwards, provided the library's layout function returned a
  position for every node. When no layout name is given and every node already carries a
  position attribute, the graph is returned unchanged and every node still carries it.
\<close>

theorem layout_positions:
  assumes "layout_step env G name = Inr G'"
    and "layout_covers env G"
    and "n \<in> set (nodes G')"
  shows "(truthy name \<or> (\<forall>m\<in>set (nodes G). \<not> has_attr G ''pos'' m) \<longrightarrow>
            (\<exists>x y. node_attrs G' n ''pos'' = Some (VTuple [VFloat x, VFloat y]))) \<and>
         (\<not> truthy name \<and> (\<forall>m\<in>set (nodes G). has_attr G ''pos'' m) \<longrightarrow>
            G' = G \<and> has_attr G' ''pos'' n)"
proof (rule conjI; rule impI)
  assume c: "truthy name \<or> (\<forall>m\<in>set (nodes G). \<not> has_attr G ''pos'' m)"
  have "\<exists>l. apply_layout env G l = Inr G'"
  proof (cases "truthy name")
    case True
    with assms(1) show ?thesis by (auto simp: layout_step_def)
  next
    case False
    with c have "get_node_attributes G ''pos'' = []" by (simp add: get_node_attributes_Nil)
    with False assms(1) show ?thesis by (auto simp: layout_step_def)
  qed
  then obtain l where "apply_layout env G l = Inr G'" by blast
  from apply_layout_covers [OF this assms(2,3)]
  show "\<exists>x y. node_attrs G' n ''pos'' = Some (VTuple [VFloat x, VFloat y])" .
next
  assume c: "\<not> truthy name \<and> (\<forall>m\<in>set (nodes G). has_attr G ''pos'' m)"
  from layout_step_frame [OF assms(1)] assms(3) have n: "n \<in> set (nodes G)" by simp
  with c have "get_node_attributes G ''pos'' \<noteq> []" by (auto simp: get_node_attributes_Nil)
  with c assms(1) have "G' = G" by (simp add: layout_step_def)
  with c n show "G' = G \<and> has_attr G' ''pos'' n" by simp
qed

text \<open>
  C3 as stated, for any subset of nodes carrying positions, fails: with no layout name
  and a position on one of two nodes the step changes nothing, and the second node has no
  position afterwards.
\<close>

theorem layout_positions_partial_counterexample:
  "layout_step demo_env half_positioned None = Inr half_positioned \<and>
   ''b'' \<in> set (nodes half_positioned) \<and> node_attrs half_positioned ''b'' ''pos'' = None"
  by (simp add: layout_step_def truthy_def get_node_attributes_def List.map_filter_def
        half_positioned_def)

text \<open>
  C3 on the path A - B - C without positions (the default layout is computed) and on the
  two-node multigraph whose nodes carry positions (the step is skipped).
\<close>

theorem layout_positions_witness:
  "layout_step demo_env path_graph None = Inr (projr (layout_step demo_env path_graph None)) \<and>
   layout_covers demo_env path_graph \<and>
   ''B'' \<in> set (nodes (projr (layout_step demo_env path_graph None))) \<and>
   \<not> has_attr path_graph ''pos'' ''A'' \<and> \<not> has_attr path_graph ''pos'' ''B'' \<and>
   \<not> has_attr path_graph ''pos'' ''C'' \<and>
   node_attrs (projr (layout_step demo_env path_graph None)) ''B'' ''pos'' =
     Some (VTuple [VFloat 1, VFloat 0]) \<and>
   layout_step demo_env pair_graph None = Inr pair_graph \<and>
   layout_covers demo_env pair_graph \<and>
   \<not> truthy None \<and> has_attr pair_graph ''pos'' ''a'' \<and> has_attr pair_graph ''pos'' ''b''"
proof -
  have ok: "\<not> isl (layout_step demo_env path_graph None)"
    by (simp add: plot_eval path_graph_def)
  then have h: "layout_step demo_env path_graph None =
                  Inr (projr (layout_step demo_env path_graph None))" by simp
  have c: "layout_covers demo_env path_graph"
    by (simp add: layout_covers_def layout_functions_def demo_env_def row_layout_def path_graph_def)
  have n: "''B'' \<in> set (nodes (projr (layout_step demo_env path_graph None)))"
    using layout_step_frame [OF h] by (simp add: path_graph_def)
  have none: "\<forall>m\<in>set (nodes path_graph). \<not> has_attr path_graph ''pos'' m"
    by (simp add: path_graph_def has_attr_def)
  have v: "node_attrs (projr (layout_step demo_env path_graph None)) ''B'' ''pos'' =
     Some (VTuple [VFloat 1, VFloat 0])"
    by (simp add: plot_eval path_graph_def)
  from layout_positions [OF h c n] none
  have "\<exists>x y. node_attrs (projr (layout_step demo_env path_graph None)) ''B'' ''pos'' =
          Some (VTuple [VFloat x, VFloat y])" by blast
  with h c n none v have first:
    "layout_step demo_env path_graph None = Inr (projr (layout_step demo_env path_graph None)) \<and>
     layout_covers demo_env path_graph \<and>
     ''B'' \<in> set (nodes (projr (layout_step demo_env path_graph None))) \<and>
     \<not> has_attr path_graph ''pos'' ''A'' \<and> \<not> has_attr path_graph ''pos'' ''B'' \<and>
     \<not> has_attr path_graph ''pos'' ''C'' \<and>
     node_attrs (projr (layout_step demo_env path_graph None)) ''B'' ''pos'' =
       Some (VTuple [VFloat 1, VFloat 0])"
    by (simp add: path_graph_def has_attr_def)
  have h2: "layout_step demo_env pair_graph None = Inr pair_graph"
    by (simp add: layout_step_def truthy_def get_node_attributes_def List.map_filter_def
          pair_graph_def)
  have c2: "layout_covers demo_env pair_graph"
    by (simp add: layout_covers_def layout_functions_def demo_env_def row_layout_def pair_graph_def)
  have n2: "''b'' \<in> set (nodes pair_graph)" by (simp add: pair_graph_def)
  have t: "\<not> truthy None" by (simp add: truthy_def)
  have all: "\<forall>m\<in>set (nodes pair_graph). has_attr pair_graph ''pos'' m"
    by (simp add: pair_graph_def has_attr_def)
  from layout_positions [OF h2 c2 n2] t all have "has_attr pair_graph ''pos'' ''b''" by blast
  with first h2 c2 t all show ?thesis by (simp add: pair_graph_def)
qed

section \<open>C4: sizing or colouring by an attribute that a node lacks\<close>





section \<open>C5: colouring by a string other than \<open>degree\<close>\<close>

text \<open>
  C5. When the colour method is a string other than \<open>degree\<close>, the colour entry of each
  node is the node's value of the attribute of that name if the node has such an
  attribute, and the string itself otherwise. So if the string names an attribute of the
  nodes, each node's value of it is its colour value; and if it names none, the string
  is the colour entry of every node.
\<close>

theorem color_by_attribute_or_literal:
  assumes "plot env G opt = Inr (fig, G')" and "color_method opt = MStr c" and "c \<noteq> ''degree''"
  shows "marker_color (fig_node_trace fig) =
           map (\<lambda>n. case node_attrs G' n c of None \<Rightarrow> VStr c | Some v \<Rightarrow> v) (nodes G') \<and>
         ((\<forall>n\<in>set (nodes G'). has_attr G' c n) \<longrightarrow>
            map Some (marker_color (fig_node_trace fig)) = map (\<lambda>n. node_attrs G' n c) (nodes G')) \<and>
         ((\<forall>n\<in>set (nodes G'). \<not> has_attr G' c n) \<longrightarrow>
            marker_color (fig_node_trace fig) = replicate (length (nodes G')) (VStr c))"
proof -
  from plot_node_loop [OF assms(1)] have
    nl: "efold (node_step env G' (size_method opt) (color_method opt) (node_text opt))
           (nodes G') empty_scatter = Inr (fig_node_trace fig)" by simp
  from nl assms(2) have "efold (node_step env G' (size_method opt) (MStr c) (node_text opt))
           (nodes G') empty_scatter = Inr (fig_node_trace fig)" by simp
  from node_loop_colors_attr [OF this assms(3)]
  have c: "marker_color (fig_node_trace fig) = map (node_color G' c) (nodes G')"
    by (simp add: empty_scatter_def)
  have c': "marker_color (fig_node_trace fig) =
           map (\<lambda>n. case node_attrs G' n c of None \<Rightarrow> VStr c | Some v \<Rightarrow> v) (nodes G')"
    using c by (simp add: node_color_def [abs_def])
  have a: "map Some (marker_color (fig_node_trace fig)) = map (\<lambda>n. node_attrs G' n c) (nodes G')"
    if "\<forall>n\<in>set (nodes G'). has_attr G' c n"
    using that c by (auto simp: node_color_def has_attr_def)
  have b: "marker_color (fig_node_trace fig) = replicate (length (nodes G')) (VStr c)"
    if "\<forall>n\<in>set (nodes G'). \<not> has_attr G' c n"
  proof -
    from that have "map (node_color G' c) (nodes G') = map (\<lambda>n. VStr c) (nodes G')"
      by (auto simp: node_color_def has_attr_def)
    with c show ?thesis by (simp add: map_replicate_const)
  qed
  from c' a b show ?thesis by blast
qed

text \<open>
  C5 on two nodes that both carry the attribute \<open>group\<close>, and with the colour \<open>red\<close>,
  which is no attribute of theirs.
\<close>

theorem color_by_attribute_or_literal_witness:
  "plot demo_env grouped color_group =
     Inr (fst (projr (plot demo_env grouped color_group)),
          snd (projr (plot demo_env grouped color_group))) \<and>
   color_method color_group = MStr ''group'' \<and> ''group'' \<noteq> ''degree'' \<and>
   has_attr grouped ''group'' ''a'' \<and> has_attr grouped ''group'' ''b'' \<and>
   marker_color (fig_node_trace (fst (projr (plot demo_env grouped color_group)))) =
     [VInt 1, VInt 2] \<and>
   plot demo_env grouped color_red =
     Inr (fst (projr (plot demo_env grouped color_red)),
          snd (projr (plot demo_env grouped color_red))) \<and>
   color_method color_red = MStr ''red'' \<and> ''red'' \<noteq> ''degree'' \<and>
   \<not> has_attr grouped ''red'' ''a'' \<and> \<not> has_attr grouped ''red'' ''b'' \<and>
   marker_color (fig_node_trace (fst (projr (plot demo_env grouped color_red)))) =
     [VStr ''red'', VStr ''red'']"
proof -
  have ok1: "\<not> isl (plot demo_env grouped color_group)"
    by (simp add: plot_eval grouped_def color_group_def)
  have h1: "plot demo_env grouped color_group =
     Inr (fst (projr (plot demo_env grouped color_group)),
          snd (projr (plot demo_env grouped color_group)))"
    by (rule Inr_projr [OF ok1])
  have ok2: "\<not> isl (plot demo_env grouped color_red)"
    by (simp add: plot_eval grouped_def color_red_def)
  have h2: "plot demo_env grouped color_red =
     Inr (fst (projr (plot demo_env grouped color_red)),
          snd (projr (plot demo_env grouped color_red)))"
    by (rule Inr_projr [OF ok2])
  have m1: "color_method color_group = MStr ''group''" "''group'' \<noteq> ''degree''"
    by (simp_all add: color_group_def default_opts_def)
  have m2: "color_method color_red = MStr ''red''" "''red'' \<noteq> ''degree''"
    by (simp_all add: color_red_def default_opts_def)
  have g1: "snd (projr (plot demo_env grouped color_group)) = grouped"
    by (simp add: plot_eval grouped_def color_group_def)
  have g2: "snd (projr (plot demo_env grouped color_red)) = grouped"
    by (simp add: plot_eval grouped_def color_red_def)
  have at: "has_attr grouped ''group'' ''a''" "has_attr grouped ''group'' ''b''"
    "\<not> has_attr grouped ''red'' ''a''" "\<not> has_attr grouped ''red'' ''b''"
    by (simp_all add: grouped_def has_attr_def)
  have n: "nodes grouped = [''a'', ''b'']" by (simp add: grouped_def)
  have e1: "marker_color (fig_node_trace (fst (projr (plot demo_env grouped color_group)))) =
          map (\<lambda>n. case node_attrs (snd (projr (plot demo_env grouped color_group))) n ''group'' of
                      None \<Rightarrow> VStr ''group'' | Some v \<Rightarrow> v)
            (nodes (snd (projr (plot demo_env grouped color_group))))"
    by (rule conjunct1 [OF color_by_attribute_or_literal [OF h1 m1]])
  have r1: "marker_color (fig_node_trace (fst (projr (plot demo_env grouped color_group)))) =
     [VInt 1, VInt 2]"
    unfolding e1 g1 by (simp add: grouped_def)
  have e2: "marker_color (fig_node_trace (fst (projr (plot demo_env grouped color_red)))) =
          map (\<lambda>n. case node_attrs (snd (projr (plot demo_env grouped color_red))) n ''red'' of
                      None \<Rightarrow> VStr ''red'' | Some v \<Rightarrow> v)
            (nodes (snd (projr (plot demo_env grouped color_red))))"
    by (rule conjunct1 [OF color_by_attribute_or_literal [OF h2 m2]])
  have r2: "marker_color (fig_node_trace (fst (projr (plot demo_env grouped color_red)))) =
     [VStr ''red'', VStr ''red'']"
    unfolding e2 g2 by (simp add: grouped_def)
  from h1 h2 m1 m2 at r1 r2 show ?thesis by simp
qed

section \<open>C6: sizes by degree and static sizes\<close>

text \<open>
  C6. With the size method \<open>degree\<close> the marker size of every node is its degree plus
  12; with the size method \<open>static\<close> the marker size of every node is 12.
\<close>

theorem degree_and_static_sizes:
  assumes "plot env G opt = Inr (fig, G')"
  shows "(size_method opt = MStr ''degree'' \<longrightarrow>
            marker_size (fig_node_trace fig) = map (\<lambda>n. VInt (degree G n + 12)) (nodes G)) \<and>
         (size_method opt = MStr ''static'' \<longrightarrow>
            marker_size (fig_node_trace fig) = map (\<lambda>n. VInt 12) (nodes G))"
proof -
  from plot_node_loop [OF assms] have l: "layout_step env G (layout opt) = Inr G'"
    and nl: "efold (node_step env G' (size_method opt) (color_method opt) (node_text opt))
           (nodes G') empty_scatter = Inr (fig_node_trace fig)" by simp_all
  from layout_step_frame [OF l] have fr: "nodes G' = nodes G" "degree G' = degree G" by simp_all
  have "marker_size (fig_node_trace fig) = map (\<lambda>n. VInt (degree G n + 12)) (nodes G)"
    if "size_method opt = MStr ''degree''"
    using node_loop_sizes_degree [of env G' _ _ "nodes G'" empty_scatter "fig_node_trace fig"]
      nl that fr by (simp add: empty_scatter_def)
  moreover have "marker_size (fig_node_trace fig) = map (\<lambda>n. VInt 12) (nodes G)"
    if "size_method opt = MStr ''static''"
    using node_loop_sizes_static [of env G' _ _ "nodes G'" empty_scatter "fig_node_trace fig"]
      nl that fr by (simp add: empty_scatter_def)
  ultimately show ?thesis by blast
qed

text \<open>C6 on the path A - B - C, whose degrees are 1, 2 and 1.\<close>

theorem degree_and_static_sizes_witness:
  "plot demo_env path_graph default_opts =
     Inr (fst (projr (plot demo_env path_graph default_opts)),
          snd (projr (plot demo_env path_graph default_opts))) \<and>
   size_method default_opts = MStr ''degree'' \<and>
   marker_size (fig_node_trace (fst (projr (plot demo_env path_graph default_opts)))) =
     [VInt 13, VInt 14, VInt 13] \<and>
   plot demo_env path_graph static_sizes =
     Inr (fst (projr (plot demo_env path_graph static_sizes)),
          snd (projr (plot demo_env path_graph static_sizes))) \<and>
   size_method static_sizes = MStr ''static'' \<and>
   marker_size (fig_node_trace (fst (projr (plot demo_env path_graph static_sizes)))) =
     [VInt 12, VInt 12, VInt 12]"
proof -
  have ok1: "\<not> isl (plot demo_env path_graph default_opts)"
    by (simp add: plot_eval path_graph_def)
  have h1: "plot demo_env path_graph default_opts =
     Inr (fst (projr (plot demo_env path_graph default_opts)),
          snd (projr (plot demo_env path_graph default_opts)))"
    by (rule Inr_projr [OF ok1])
  have ok2: "\<not> isl (plot demo_env path_graph static_sizes)"
    by (simp add: plot_eval path_graph_def static_sizes_def)
  have h2: "plot demo_env path_graph static_sizes =
     Inr (fst (projr (plot demo_env path_graph static_sizes)),
          snd (projr (plot demo_env path_graph static_sizes)))"
    by (rule Inr_projr [OF ok2])
  have s1: "size_method default_opts = MStr ''degree''" by (simp add: default_opts_def)
  have s2: "size_method static_sizes = MStr ''static''"
    by (simp add: static_sizes_def default_opts_def)
  from degree_and_static_sizes [OF h1] s1
  have r1: "marker_size (fig_node_trace (fst (projr (plot demo_env path_graph default_opts)))) =
     map (\<lambda>n. VInt (degree path_graph n + 12)) (nodes path_graph)" by blast
  from degree_and_static_sizes [OF h2] s2
  have r2: "marker_size (fig_node_trace (fst (projr (plot demo_env path_graph static_sizes)))) =
     map (\<lambda>n. VInt 12) (nodes path_graph)" by simp
  have "map (\<lambda>n. VInt (degree path_graph n + 12)) (nodes path_graph) = [VInt 13, VInt 14, VInt 13]"
    "map (\<lambda>n. VInt 12) (nodes path_graph) = [VInt 12, VInt 12, VInt 12]"
    by (simp_all add: path_graph_def)
  with r1 r2 h1 h2 s1 s2 show ?thesis by simp
qed

section \<open>C7: the layout step skips a positioned graph\<close>

text \<open>
  C7. If no layout name is given (the argument is \<open>None\<close> or empty) and some node of the
  graph already carries a position, the layout step returns the graph unchanged, so
  every position is as before; running the step twice is the same as running it once.
\<close>

theorem layout_skip_idempotent:
  assumes "\<not> truthy name" and "\<exists>n\<in>set (nodes G). has_attr G ''pos'' n"
  shows "layout_step env G name = Inr G \<and>
         ebind (layout_step env G name) (\<lambda>G1. layout_step env G1 name) =
           layout_step env G name"
proof -
  from assms(2) have "get_node_attributes G ''pos'' \<noteq> []"
    by (simp add: get_node_attributes_Nil)
  with assms(1) have "layout_step env G name = Inr G" by (simp add: layout_step_def)
  then show ?thesis by simp
qed

text \<open>C7 on the two-node multigraph, whose nodes carry positions.\<close>

theorem layout_skip_idempotent_witness:
  "\<not> truthy None \<and> ''a'' \<in> set (nodes pair_graph) \<and> has_attr pair_graph ''pos'' ''a'' \<and>
   layout_step demo_env pair_graph None = Inr pair_graph \<and>
   ebind (layout_step demo_env pair_graph None) (\<lambda>G1. layout_step demo_env G1 None) =
     layout_step demo_env pair_graph None"
proof -
  have t: "\<not> truthy None" by (simp add: truthy_def)
  have a: "''a'' \<in> set (nodes pair_graph)" "has_attr pair_graph ''pos'' ''a''"
    by (simp_all add: pair_graph_def has_attr_def)
  then have e: "\<exists>n\<in>set (nodes pair_graph). has_attr pair_graph ''pos'' n" by blast
  from layout_skip_idempotent [OF t e, of demo_env] t a show ?thesis by simp
qed

section \<open>C8: arrow annotations\<close>

text \<open>
  C8. The annotations of the figure start with the caption. For a directed graph they
  continue with one arrow per edge, in edge order, from the position of the edge's source
  to the position of its target; for an undirected graph the caption is the only
  annotation.
\<close>

theorem arrow_annotations:
  assumes "plot env G opt = Inr (fig, G')"
  shows "(directed G \<longrightarrow>
            map Some (fig_annotations fig) =
              Some (Caption (annotation_text opt)) # map (arrow_between G') (edges G) \<and>
            length (fig_annotations fig) = 1 + length (edges G)) \<and>
         (\<not> directed G \<longrightarrow> fig_annotations fig = [Caption (annotation_text opt)])"
proof -
  from plot_Inr [OF assms] obtain nt et mt where
    l: "layout_step env G (layout opt) = Inr G'" and
    f: "generate_figure env G' nt et mt (title opt) (titlefont_size opt) (showlegend opt)
             (annotation_text opt) = Inr fig"
    by blast
  from layout_step_frame [OF l] have fr: "edges G' = edges G" "directed G' = directed G" by simp_all
  from plot_edge_loop [OF assms] obtain st where
    el: "efold (edge_step G' (show_edgetext opt)) (edges G')
                \<lparr>st_edge_trace = empty_scatter, st_middle_node_trace = empty_scatter,
                 st_edge_properties = []\<rparr> = Inr st" by blast
  have d: "map Some (fig_annotations fig) =
              Some (Caption (annotation_text opt)) # map (arrow_between G') (edges G) \<and>
            length (fig_annotations fig) = 1 + length (edges G)" if "directed G"
  proof -
    from that fr generate_figure_Inr [OF f]
    have a: "efold (arrow_step G') (edges G') [Caption (annotation_text opt)] = Inr (fig_annotations fig)"
      by simp
    from arrow_loop [of "edges G'" G' "[Caption (annotation_text opt)]"] edge_loop_positions [OF el]
    obtain arrows where "efold (arrow_step G') (edges G') [Caption (annotation_text opt)] =
        Inr ([Caption (annotation_text opt)] @ arrows)"
      and m: "map Some arrows = map (arrow_between G') (edges G')" by blast
    with a have e: "fig_annotations fig = Caption (annotation_text opt) # arrows" by simp
    from m have "length arrows = length (edges G')" by (metis length_map)
    with e m fr show ?thesis by simp
  qed
  have u: "fig_annotations fig = [Caption (annotation_text opt)]" if "\<not> directed G"
    using that fr generate_figure_Inr [OF f] by simp
  from d u show ?thesis by blast
qed

text \<open>C8 on the directed graph with two edges and on the undirected multigraph.\<close>

theorem arrow_annotations_witness:
  "plot demo_env two_way default_opts =
     Inr (fst (projr (plot demo_env two_way default_opts)),
          snd (projr (plot demo_env two_way default_opts))) \<and>
   directed two_way \<and>
   fig_annotations (fst (projr (plot demo_env two_way default_opts))) =
     [Caption [], Arrow (VInt 0) (VInt 0) (VInt 2) (VInt 4), Arrow (VInt 2) (VInt 4) (VInt 0) (VInt 0)] \<and>
   length (fig_annotations (fst (projr (plot demo_env two_way default_opts)))) = 1 + length (edges two_way) \<and>
   plot demo_env pair_graph default_opts =
     Inr (fst (projr (plot demo_env pair_graph default_opts)),
          snd (projr (plot demo_env pair_graph default_opts))) \<and>
   \<not> directed pair_graph \<and>
   fig_annotations (fst (projr (plot demo_env pair_graph default_opts))) = [Caption []]"
proof -
  have ok1: "\<not> isl (plot demo_env two_way default_opts)"
    by (simp add: plot_eval two_way_def)
  have h1: "plot demo_env two_way default_opts =
     Inr (fst (projr (plot demo_env two_way default_opts)),
          snd (projr (plot demo_env two_way default_opts)))"
    by (rule Inr_projr [OF ok1])
  have ok2: "\<not> isl (plot demo_env pair_graph default_opts)"
    by (simp add: plot_eval pair_graph_def)
  have h2: "plot demo_env pair_graph default_opts =
     Inr (fst (projr (plot demo_env pair_graph default_opts)),
          snd (projr (plot demo_env pair_graph default_opts)))"
    by (rule Inr_projr [OF ok2])
  have d1: "directed two_way" by (simp add: two_way_def)
  have d2: "\<not> directed pair_graph" by (simp add: pair_graph_def)
  from arrow_annotations [OF h1] d1
  have len: "length (fig_annotations (fst (projr (plot demo_env two_way default_opts)))) =
               1 + length (edges two_way)" by blast
  have a1: "fig_annotations (fst (projr (plot demo_env two_way default_opts))) =
     [Caption [], Arrow (VInt 0) (VInt 0) (VInt 2) (VInt 4), Arrow (VInt 2) (VInt 4) (VInt 0) (VInt 0)]"
    by (simp add: plot_eval two_way_def)
  from arrow_annotations [OF h2] d2
  have a2: "fig_annotations (fst (projr (plot demo_env pair_graph default_opts))) =
              [Caption (annotation_text default_opts)]" by blast
  have "annotation_text default_opts = []" by (simp add: default_opts_def)
  with h1 h2 d1 d2 len a1 a2 show ?thesis by simp
qed

section \<open>C10: hover text from an attribute that a node lacks\<close>

text \<open>
  C10. Let the layout step have completed. If a node lacks an attribute listed in
  \<open>node_text\<close>, \<^verbatim>\<open>plot\<close> fails. The error is the missing-key error for that
  attribute when the call gets as far as that entry of the node's hover text: the chart
  library accepts the traces, the edge loop and the node loop over the nodes before it end
  without an error, the node's position unpacks into two coordinates, and the node carries
  the attributes listed before the missing one.
\<close>

theorem node_text_missing_attribute:
  assumes "layout_step env G (layout opt) = Inr G'"
    and "n \<in> set (nodes G')" and "p \<in> set (node_text opt)" and "\<not> has_attr G' p n"
  shows "isl (plot env G opt) \<and>
         (reaches env G' opt (takeWhile (\<lambda>m. m \<noteq> n) (nodes G')) \<and>
          node_position G' n \<noteq> None \<and>
          (\<forall>q\<in>set (takeWhile (\<lambda>q. q \<noteq> p) (node_text opt)). has_attr G' q n)
          \<longrightarrow> plot env G opt = Inl (KeyError p))"
proof
  show "isl (plot env G opt)"
  proof (rule ccontr)
    assume "\<not> isl (plot env G opt)"
    from plot_needs [OF assms(1) this assms(2)] assms(3,4) show False by blast
  qed
next
  show "reaches env G' opt (takeWhile (\<lambda>m. m \<noteq> n) (nodes G')) \<and>
          node_position G' n \<noteq> None \<and>
          (\<forall>q\<in>set (takeWhile (\<lambda>q. q \<noteq> p) (node_text opt)). has_attr G' q n)
          \<longrightarrow> plot env G opt = Inl (KeyError p)"
  proof
    assume h: "reaches env G' opt (takeWhile (\<lambda>m. m \<noteq> n) (nodes G')) \<and>
          node_position G' n \<noteq> None \<and>
          (\<forall>q\<in>set (takeWhile (\<lambda>q. q \<noteq> p) (node_text opt)). has_attr G' q n)"
    then have r: "reaches env G' opt (takeWhile (\<lambda>m. m \<noteq> n) (nodes G'))"
      and qs: "\<forall>q\<in>set (takeWhile (\<lambda>q. q \<noteq> p) (node_text opt)). has_attr G' q n"
      by simp_all
    from h obtain xy where pos: "node_position G' n = Some xy" by auto
    from takeWhile_split [OF assms(2)] obtain post where
      ns: "nodes G' = takeWhile (\<lambda>m. m \<noteq> n) (nodes G') @ n # post" by blast
    from takeWhile_split [OF assms(3)] obtain rs where
      ps: "node_text opt = takeWhile (\<lambda>q. q \<noteq> p) (node_text opt) @ p # rs" by blast
    show "plot env G opt = Inl (KeyError p)"
      by (rule plot_stops_at_node [OF assms(1) r ns])
         (rule node_step_text_error [OF pos ps qs assms(4)])
  qed
qed

text \<open>
  C10 as stated, for every call, fails: the only node lacks the attribute \<open>group\<close> listed
  for the hover text, but its position has three coordinates, and \<^verbatim>\<open>plot\<close> fails
  with a value error when it unpacks the position, before the hover text is built.
\<close>

theorem node_text_other_error_counterexample:
  "layout_step demo_env solid (layout text_blue) = Inr solid \<and>
   node_text text_blue = [''group'', ''blue''] \<and>
   ''a'' \<in> set (nodes solid) \<and> \<not> has_attr solid ''group'' ''a'' \<and>
   plot demo_env solid text_blue = Inl ValueError"
proof -
  have l: "layout_step demo_env solid (layout text_blue) = Inr solid"
    by (simp add: layout_step_def truthy_def get_node_attributes_def List.map_filter_def
          solid_def text_blue_def default_opts_def)
  have t: "node_text text_blue = [''group'', ''blue'']" by (simp add: text_blue_def default_opts_def)
  have n: "''a'' \<in> set (nodes solid)" by (simp add: solid_def)
  have a: "\<not> has_attr solid ''group'' ''a''" by (simp add: solid_def has_attr_def)
  have p: "plot demo_env solid text_blue = Inl ValueError"
    by (simp add: plot_eval solid_def text_blue_def)
  show ?thesis by (intro conjI l t n a p)
qed

text \<open>
  C10 on two nodes of which the second lacks the attribute \<open>blue\<close>, the second entry of
  \<open>node_text\<close>.
\<close>

theorem node_text_missing_attribute_witness:
  "layout_step demo_env grouped (layout text_blue) = Inr grouped \<and>
   ''b'' \<in> set (nodes grouped) \<and> ''blue'' \<in> set (node_text text_blue) \<and>
   \<not> has_attr grouped ''blue'' ''b'' \<and>
   takeWhile (\<lambda>m. m \<noteq> ''b'') (nodes grouped) = [''a''] \<and>
   reaches demo_env grouped text_blue [''a''] \<and>
   node_position grouped ''b'' = Some (VInt 2, VInt 4) \<and>
   takeWhile (\<lambda>q. q \<noteq> ''blue'') (node_text text_blue) = [''group''] \<and>
   has_attr grouped ''group'' ''b'' \<and>
   isl (plot demo_env grouped text_blue) \<and>
   plot demo_env grouped text_blue = Inl (KeyError ''blue'')"
proof -
  have l: "layout_step demo_env grouped (layout text_blue) = Inr grouped"
    by (simp add: layout_step_def truthy_def get_node_attributes_def List.map_filter_def
          grouped_def text_blue_def default_opts_def)
  have n: "''b'' \<in> set (nodes grouped)" by (simp add: grouped_def)
  have p: "''blue'' \<in> set (node_text text_blue)" by (simp add: text_blue_def default_opts_def)
  have a: "\<not> has_attr grouped ''blue'' ''b''" by (simp add: grouped_def has_attr_def)
  have t1: "takeWhile (\<lambda>m. m \<noteq> ''b'') (nodes grouped) = [''a'']" by (simp add: grouped_def)
  have t2: "takeWhile (\<lambda>q. q \<noteq> ''blue'') (node_text text_blue) = [''group'']"
    by (simp add: text_blue_def default_opts_def)
  have r: "reaches demo_env grouped text_blue [''a'']"
    by (simp add: reaches_def plot_eval grouped_def text_blue_def)
  have pos: "node_position grouped ''b'' = Some (VInt 2, VInt 4)"
    by (simp add: node_position_def unpack2_def grouped_def)
  have g: "has_attr grouped ''group'' ''b''" by (simp add: grouped_def has_attr_def)
  have r': "reaches demo_env grouped text_blue (takeWhile (\<lambda>m. m \<noteq> ''b'') (nodes grouped))"
    using r by (simp only: t1)
  have pos': "node_position grouped ''b'' \<noteq> None" using pos by simp
  have qs: "\<forall>q\<in>set (takeWhile (\<lambda>q. q \<noteq> ''blue'') (node_text text_blue)). has_attr grouped q ''b''"
    using g by (simp only: t2) simp
  note t = node_text_missing_attribute [OF l n p a]
  have f: "isl (plot demo_env grouped text_blue)" by (rule t [THEN conjunct1])
  have e: "plot demo_env grouped text_blue = Inl (KeyError ''blue'')"
    by (rule t [THEN conjunct2, THEN mp]) (intro conjI r' pos' qs)
  show ?thesis by (intro conjI l n p a t1 r pos t2 g f e)
qed


end
